theory Spec2Isabelle
  imports Main "HOL-Library.Word" "HOL-Library.Signed_Division"
begin

unbundle bit_operations_syntax

section \<open>Layout constants of \<^verbatim>\<open>fs.c\<close>\<close>

definition BLOCK_SIZE_IN_BYTES :: int where "BLOCK_SIZE_IN_BYTES = 4096"
definition DISK_SIZE_IN_BLOCKS :: int where "DISK_SIZE_IN_BLOCKS = 64"
definition DATA_REGION_IN_BLOCKS :: int where "DATA_REGION_IN_BLOCKS = 56"
definition INODE_TABLE_IN_BLOCKS :: int where "INODE_TABLE_IN_BLOCKS = 5"
definition INODE_SIZE_IN_BYTES :: int where "INODE_SIZE_IN_BYTES = 256"
definition MAX_DIRECTORY_NAME_LENGTH :: nat where "MAX_DIRECTORY_NAME_LENGTH = 30"
definition CHAR_BIT :: int where "CHAR_BIT = 8"

section \<open>Bitmaps\<close>

text \<open>
  A bitmap is the array of 64-bit words a \<^verbatim>\<open>word_t *\<close> points to; the index is the C
  array index. The two bitmaps of the disk are one block each, words 0 to 511.
\<close>

type_synonym word_t = "64 word"
type_synonym bitmap = "int \<Rightarrow> word_t"

definition BITS_PER_WORD :: int where "BITS_PER_WORD = 8 * CHAR_BIT"

text \<open>C's \<^verbatim>\<open>/\<close> and \<^verbatim>\<open>%\<close> on \<^verbatim>\<open>int\<close> truncate towards zero.\<close>

definition WORD_OFFSET :: "int \<Rightarrow> int" where "WORD_OFFSET b = b sdiv BITS_PER_WORD"
definition BIT_OFFSET :: "int \<Rightarrow> int" where "BIT_OFFSET b = b smod BITS_PER_WORD"

text \<open>
  The mask of \<^verbatim>\<open>set_bit\<close>, \<^verbatim>\<open>clear_bit\<close> and \<^verbatim>\<open>get_bit\<close> is the expression
  \<^verbatim>\<open>(1 << BIT_OFFSET(n))\<close>. Its left operand is the literal \<^verbatim>\<open>1\<close>, an \<^verbatim>\<open>int\<close>, so the
  shift is a 32-bit shift and its result is converted to \<^verbatim>\<open>word_t\<close> afterwards, by sign
  extension. For counts 0 to 30 C defines the result, \<open>2 ^ k\<close>. For the other counts C
  leaves the shift undefined; \<open>shl_int\<close> fixes what the 32-bit shift instruction of
  x86-64 and AArch64 computes, which uses the count modulo 32: count 31 gives
  \<^verbatim>\<open>INT_MIN\<close>, count 32 gives 1 again.
\<close>

definition shl_int :: "int \<Rightarrow> 32 word" where
  "shl_int k = push_bit (nat (k mod 32)) 1"

definition bit_mask :: "int \<Rightarrow> word_t" where
  "bit_mask n = scast (shl_int (BIT_OFFSET n))"

definition set_bit_fs :: "bitmap \<Rightarrow> int \<Rightarrow> bitmap" where
  "set_bit_fs words n = words(WORD_OFFSET n := words (WORD_OFFSET n) OR bit_mask n)"

definition clear_bit :: "bitmap \<Rightarrow> int \<Rightarrow> bitmap" where
  "clear_bit words n = words(WORD_OFFSET n := words (WORD_OFFSET n) AND NOT (bit_mask n))"

definition get_bit :: "bitmap \<Rightarrow> int \<Rightarrow> bool" where
  "get_bit words n = (words (WORD_OFFSET n) AND bit_mask n \<noteq> 0)"

text \<open>The \<^verbatim>\<open>for\<close> loop of \<^verbatim>\<open>first_clear_bit\<close>, entered with \<open>i = 0\<close>.\<close>

function first_clear_from :: "bitmap \<Rightarrow> int \<Rightarrow> int" where
  "first_clear_from words i =
     (if i < BLOCK_SIZE_IN_BYTES * CHAR_BIT
      then (if \<not> get_bit words i then i else first_clear_from words (i + 1))
      else - 1)"
  by pat_completeness auto
termination
  by (relation "measure (\<lambda>(words, i). nat (BLOCK_SIZE_IN_BYTES * CHAR_BIT - i))") auto

declare first_clear_from.simps [simp del]

definition first_clear_bit :: "bitmap \<Rightarrow> int" where
  "first_clear_bit words = first_clear_from words 0"

section \<open>The disk\<close>

text \<open>
  The disk is one \<^verbatim>\<open>calloc\<close>ed object of 64 blocks. The model keeps its regions apart:
  the superblock, the two bitmap blocks, the inode table (blocks 3 to 7, 80 inodes of 256
  bytes) as a table of records, and the data region (blocks 8 to 63) byte by byte, since
  directory entries are addressed there by pointer arithmetic that crosses block
  boundaries, and since the inodes with an index of 80 or more lie there. An address is a
  byte offset from \<^verbatim>\<open>disk\<close>. An access to a directory entry that is not in the data
  region, and an access to an inode that is neither in the inode table nor in the data
  region (in C: undefined behaviour beyond the object, an alias of the superblock, of a
  bitmap or of the inode table inside it) ends the call with \<open>Out_of_region\<close>; a failed
  \<^verbatim>\<open>assert\<close> ends it with \<open>Assertion_failed\<close>.
\<close>

datatype error = Assertion_failed | Out_of_region

definition bind_err :: "error + 'a \<Rightarrow> ('a \<Rightarrow> error + 'b) \<Rightarrow> error + 'b" where
  "bind_err m f = (case m of Inl e \<Rightarrow> Inl e | Inr x \<Rightarrow> f x)"

definition inode_type_file :: int where "inode_type_file = 0"
definition inode_type_directory :: int where "inode_type_directory = 1"

record superblock =
  inode_bitmap_block :: int
  data_bitmap_block :: int
  inode_table_start :: int
  data_region_start :: int
  root_inode :: int

text \<open>
  A \<^verbatim>\<open>void *\<close> is \<open>None\<close> for the null pointer, else an address. The array
  \<^verbatim>\<open>data_block_pointers[12]\<close> is a function of the index; only index 0 is ever used.
\<close>

record inode =
  i_type :: int
  i_size :: int
  data_block_pointers :: "nat \<Rightarrow> int option"

text \<open>
  The last two fields are not on the disk. They are history variables for stating
  allocation uniqueness: the values that the locals \<^verbatim>\<open>inum\<close> and \<^verbatim>\<open>data_block_num\<close> of
  \<^verbatim>\<open>create_inode\<close> have taken (and the two indices \<^verbatim>\<open>fs_create_disk\<close> sets), latest
  first. No operation reads them.
\<close>

record disk_state =
  fs :: superblock
  inode_bitmap_words :: bitmap
  data_bitmap_words :: bitmap
  inode_table :: "int \<Rightarrow> inode"
  data_bytes :: "int \<Rightarrow> char"
  inums_allocated :: "int list"
  blocks_allocated :: "int list"

text \<open>
  \<^verbatim>\<open>struct direntry\<close> is an \<^verbatim>\<open>int\<close> (4 bytes, little-endian two's complement) followed
  by 31 \<^verbatim>\<open>char\<close>s; its size is rounded up to a multiple of 4.
\<close>

definition SIZEOF_DIRENTRY :: int where "SIZEOF_DIRENTRY = 36"
definition NAME_OFFSET :: int where "NAME_OFFSET = 4"

definition inode_bitmap :: "disk_state \<Rightarrow> bitmap" where
  "inode_bitmap s = inode_bitmap_words s"

definition data_bitmap :: "disk_state \<Rightarrow> bitmap" where
  "data_bitmap s = data_bitmap_words s"

text \<open>
  The sums and products inside the two address computations are \<^verbatim>\<open>int\<close> arithmetic.
  \<open>wrap_int\<close> is the value of an \<^verbatim>\<open>int\<close> expression as the machine computes it: in two's
  complement on 32 bits. (C leaves the overflow undefined.) The result is added to the
  pointer \<^verbatim>\<open>disk\<close> without wrapping.
\<close>

definition wrap_int :: "int \<Rightarrow> int" where
  "wrap_int x = (x + 2147483648) mod 4294967296 - 2147483648"

definition inode_for_index :: "disk_state \<Rightarrow> int \<Rightarrow> int" where
  "inode_for_index s index =
     wrap_int (inode_table_start (fs s) * BLOCK_SIZE_IN_BYTES)
       + wrap_int (index * INODE_SIZE_IN_BYTES)"

definition data_block_for_index :: "disk_state \<Rightarrow> int \<Rightarrow> int" where
  "data_block_for_index s index =
     wrap_int (wrap_int (data_region_start (fs s) + index) * BLOCK_SIZE_IN_BYTES)"

subsection \<open>Typed access\<close>

definition INODE_TABLE_BASE :: int where "INODE_TABLE_BASE = 3 * BLOCK_SIZE_IN_BYTES"
definition DATA_BASE :: int where
  "DATA_BASE = (3 + INODE_TABLE_IN_BLOCKS) * BLOCK_SIZE_IN_BYTES"
definition DISK_END :: int where "DISK_END = DISK_SIZE_IN_BLOCKS * BLOCK_SIZE_IN_BYTES"

definition is_inode_ptr :: "int \<Rightarrow> bool" where
  "is_inode_ptr p \<longleftrightarrow>
     INODE_TABLE_BASE \<le> p \<and> p < DATA_BASE \<and> (p - INODE_TABLE_BASE) mod INODE_SIZE_IN_BYTES = 0"

definition inode_slot :: "int \<Rightarrow> int" where
  "inode_slot p = (p - INODE_TABLE_BASE) div INODE_SIZE_IN_BYTES"

definition in_data :: "int \<Rightarrow> bool" where
  "in_data a \<longleftrightarrow> DATA_BASE \<le> a \<and> a < DISK_END"

definition load_byte :: "disk_state \<Rightarrow> int \<Rightarrow> error + char" where
  "load_byte s a = (if in_data a then Inr (data_bytes s a) else Inl Out_of_region)"

fun write_bytes :: "(int \<Rightarrow> char) \<Rightarrow> int \<Rightarrow> char list \<Rightarrow> (int \<Rightarrow> char)" where
  "write_bytes m a [] = m"
| "write_bytes m a (c # cs) = write_bytes (m(a := c)) (a + 1) cs"

definition store_bytes :: "disk_state \<Rightarrow> int \<Rightarrow> char list \<Rightarrow> error + disk_state" where
  "store_bytes s a cs =
     (if cs = [] then Inr s
      else if in_data a \<and> in_data (a + int (length cs) - 1)
      then Inr (s\<lparr>data_bytes := write_bytes (data_bytes s) a cs\<rparr>)
      else Inl Out_of_region)"

definition int_bytes :: "int \<Rightarrow> char list" where
  "int_bytes n = [char_of n, char_of (n div 256), char_of (n div 65536), char_of (n div 16777216)]"

definition bytes_int :: "char \<Rightarrow> char \<Rightarrow> char \<Rightarrow> char \<Rightarrow> int" where
  "bytes_int b0 b1 b2 b3 =
     (let u = of_char b0 + 256 * of_char b1 + 65536 * of_char b2 + 16777216 * of_char b3
      in if u < 2147483648 then u else u - 4294967296)"

text \<open>
  A pointer in memory is the eight bytes of an address, little-endian, and the null
  pointer is address 0. The address of the disk is what \<^verbatim>\<open>calloc\<close> returned, which the
  program does not determine; the model takes one address for it. It enters only the bytes
  of a pointer that is stored in the data region.
\<close>

definition DISK_ADDRESS :: int where "DISK_ADDRESS = 0x7F0000000010"

definition ptr_bytes :: "int option \<Rightarrow> char list" where
  "ptr_bytes p =
     (let v = (case p of None \<Rightarrow> 0 | Some a \<Rightarrow> DISK_ADDRESS + a)
      in map (\<lambda>k. char_of (v div 256 ^ k)) [0..<8])"

definition bytes_ptr :: "disk_state \<Rightarrow> int \<Rightarrow> int option" where
  "bytes_ptr s a =
     (let v = foldr (\<lambda>k v. of_char (data_bytes s (a + int k)) + 256 * v) [0..<8] 0
      in if v = 0 then None else Some (v - DISK_ADDRESS))"

text \<open>
  \<^verbatim>\<open>inode_for_index(index)\<close> is \<^verbatim>\<open>disk + 3 * 4096 + index * 256\<close> and the code applies no
  bound to the index. For the indices 0 to 79 the inode lies in the inode table. From index
  80 on it lies in the data region, index 80 at the first byte of data block 0: there the
  fields of the inode are bytes of the data region, \<^verbatim>\<open>type\<close> the bytes 0 to 3, \<^verbatim>\<open>size\<close>
  the bytes 4 to 7, \<^verbatim>\<open>data_block_pointers[k]\<close> the bytes \<open>8 + 8 * k\<close> to \<open>15 + 8 * k\<close>, and
  the code reads and writes them as such. \<open>load_inode\<close> reads an inode, of which the
  code uses \<^verbatim>\<open>type\<close> and \<^verbatim>\<open>data_block_pointers[0]\<close>, the bytes 0 to 15; the two stores
  are the two assignments to fields of an inode that the code has. An inode pointer before
  the inode table (a negative index) or beyond the disk ends the call with
  \<open>Out_of_region\<close>.
\<close>

definition load_inode :: "disk_state \<Rightarrow> int \<Rightarrow> error + inode" where
  "load_inode s p =
     (if is_inode_ptr p then Inr (inode_table s (inode_slot p))
      else if in_data p \<and> in_data (p + 15)
      then Inr \<lparr>i_type = bytes_int (data_bytes s p) (data_bytes s (p + 1))
                           (data_bytes s (p + 2)) (data_bytes s (p + 3)),
               i_size = bytes_int (data_bytes s (p + 4)) (data_bytes s (p + 5))
                           (data_bytes s (p + 6)) (data_bytes s (p + 7)),
               data_block_pointers = (\<lambda>k. if k < 12 then bytes_ptr s (p + 8 + 8 * int k) else None)\<rparr>
      else Inl Out_of_region)"

definition store_inode_type :: "disk_state \<Rightarrow> int \<Rightarrow> int \<Rightarrow> error + disk_state" where
  "store_inode_type s p t =
     (if is_inode_ptr p
      then Inr (s\<lparr>inode_table := (inode_table s)
                  (inode_slot p := (inode_table s (inode_slot p))\<lparr>i_type := t\<rparr>)\<rparr>)
      else store_bytes s p (int_bytes t))"

definition store_inode_block :: "disk_state \<Rightarrow> int \<Rightarrow> int option \<Rightarrow> error + disk_state" where
  "store_inode_block s p b =
     (if is_inode_ptr p
      then Inr (s\<lparr>inode_table := (inode_table s)
                  (inode_slot p := (inode_table s (inode_slot p))
                     \<lparr>data_block_pointers := (data_block_pointers (inode_table s (inode_slot p)))(0 := b)\<rparr>)\<rparr>)
      else store_bytes s (p + 8) (ptr_bytes b))"

text \<open>\<^verbatim>\<open>entry->inum\<close>, read and written.\<close>

definition load_inum :: "disk_state \<Rightarrow> int \<Rightarrow> error + int" where
  "load_inum s entry =
     (if in_data entry \<and> in_data (entry + 3)
      then Inr (bytes_int (data_bytes s entry) (data_bytes s (entry + 1))
                  (data_bytes s (entry + 2)) (data_bytes s (entry + 3)))
      else Inl Out_of_region)"

definition store_inum :: "disk_state \<Rightarrow> int \<Rightarrow> int \<Rightarrow> error + disk_state" where
  "store_inum s entry n = store_bytes s entry (int_bytes n)"

subsection \<open>The string functions of the C library\<close>

text \<open>
  A C string argument is the list of its characters before the terminating NUL.
  \<^verbatim>\<open>strncpy(dst, src, n)\<close> writes exactly \<open>n\<close> bytes: the first \<open>n\<close> characters of
  \<open>src\<close>, padded with NULs when \<open>src\<close> is shorter, and no NUL when it is not.
\<close>

definition strncpy :: "disk_state \<Rightarrow> int \<Rightarrow> string \<Rightarrow> nat \<Rightarrow> error + disk_state" where
  "strncpy s dst src n = store_bytes s dst (take n src @ replicate (n - length src) (CHR 0x00))"

text \<open>\<^verbatim>\<open>0 == strcmp(p, str)\<close> for a string \<open>p\<close> in the data region.\<close>

fun strcmp_eq :: "disk_state \<Rightarrow> int \<Rightarrow> string \<Rightarrow> error + bool" where
  "strcmp_eq s p [] = bind_err (load_byte s p) (\<lambda>c. Inr (c = CHR 0x00))"
| "strcmp_eq s p (x # xs) =
     bind_err (load_byte s p) (\<lambda>c. if c = x then strcmp_eq s (p + 1) xs else Inr False)"

text \<open>The characters of the string at \<open>p\<close>, as \<^verbatim>\<open>printf("%s")\<close> and \<^verbatim>\<open>strlen\<close> read them.\<close>

function read_str :: "disk_state \<Rightarrow> int \<Rightarrow> error + string" where
  "read_str s p =
     (if in_data p
      then (if data_bytes s p = CHR 0x00 then Inr []
            else bind_err (read_str s (p + 1)) (\<lambda>cs. Inr (data_bytes s p # cs)))
      else Inl Out_of_region)"
  by pat_completeness auto
termination
  by (relation "measure (\<lambda>(s, p). nat (DISK_END - p))") (auto simp: in_data_def)

declare read_str.simps [simp del]

text \<open>
  \<^verbatim>\<open>strsep(&string, "/")\<close> on a non-null \<open>string\<close>: the token up to the first \<^verbatim>\<open>/\<close>, and
  the new value of \<open>string\<close>: what follows that \<^verbatim>\<open>/\<close>, or null when there is none.
\<close>

fun strsep :: "string \<Rightarrow> string \<times> string option" where
  "strsep [] = ([], None)"
| "strsep (c # cs) =
     (if c = CHR ''/'' then ([], Some cs)
      else (case strsep cs of (token, rest) \<Rightarrow> (c # token, rest)))"

section \<open>Operations\<close>

definition init_direntry_datablock_with_default_directories ::
  "disk_state \<Rightarrow> int \<Rightarrow> error + disk_state" where
  "init_direntry_datablock_with_default_directories s data_block =
     (let entry = data_block in
      bind_err (store_inum s entry 0) (\<lambda>s.
      bind_err (strncpy s (entry + NAME_OFFSET) ''.'' MAX_DIRECTORY_NAME_LENGTH) (\<lambda>s.
      let entry = entry + 1 * SIZEOF_DIRENTRY in
      bind_err (store_inum s entry 0) (\<lambda>s.
      strncpy s (entry + NAME_OFFSET) ''..'' MAX_DIRECTORY_NAME_LENGTH))))"

text \<open>What \<^verbatim>\<open>calloc\<close> returns: every byte of every region is zero.\<close>

definition zero_inode :: inode where
  "zero_inode = \<lparr>i_type = 0, i_size = 0, data_block_pointers = (\<lambda>_. None)\<rparr>"

definition calloc_disk :: disk_state where
  "calloc_disk =
     \<lparr>fs = \<lparr>inode_bitmap_block = 0, data_bitmap_block = 0, inode_table_start = 0,
              data_region_start = 0, root_inode = 0\<rparr>,
      inode_bitmap_words = (\<lambda>_. 0), data_bitmap_words = (\<lambda>_. 0),
      inode_table = (\<lambda>_. zero_inode), data_bytes = (\<lambda>_. CHR 0x00),
      inums_allocated = [], blocks_allocated = []\<rparr>"

definition fs_create_disk :: "error + disk_state" where
  "fs_create_disk =
     (let s = calloc_disk;
          s = s\<lparr>fs := \<lparr>inode_bitmap_block = 1, data_bitmap_block = 2, inode_table_start = 3,
                         data_region_start = 3 + INODE_TABLE_IN_BLOCKS, root_inode = 0\<rparr>\<rparr>;
          s = s\<lparr>inode_bitmap_words := set_bit_fs (inode_bitmap s) 0,
                 inums_allocated := 0 # inums_allocated s\<rparr>;
          in_ptr = inode_for_index s 0
      in
      bind_err (store_inode_type s in_ptr inode_type_directory) (\<lambda>s.
      let s = s\<lparr>data_bitmap_words := set_bit_fs (data_bitmap s) 0,
                 blocks_allocated := 0 # blocks_allocated s\<rparr>;
          data_block = data_block_for_index s 0
      in
      bind_err (store_inode_block s in_ptr (Some data_block)) (\<lambda>s.
      init_direntry_datablock_with_default_directories s data_block)))"

definition root_inode_ptr :: "disk_state \<Rightarrow> int" where
  "root_inode_ptr s = inode_for_index s (root_inode (fs s))"

subsection \<open>Walking the entries of a directory\<close>

text \<open>
  All three loops over a directory advance with \<^verbatim>\<open>entry = &entry[++entry_index]\<close>:
  the index is incremented and then applied to the pointer that has already been
  advanced, so the pointer moves by 1, 2, 3, ... entries and visits entries
  0, 1, 3, 6, 10, ... of the data block.
\<close>

function directory_scan :: "disk_state \<Rightarrow> string \<Rightarrow> int \<Rightarrow> nat \<Rightarrow> error + int option" where
  "directory_scan s directory_name entry entry_index =
     (if in_data (entry + NAME_OFFSET)
      then (if data_bytes s (entry + NAME_OFFSET) \<noteq> CHR 0x00
            then (case strcmp_eq s (entry + NAME_OFFSET) directory_name of
                    Inl e \<Rightarrow> Inl e
                  | Inr True \<Rightarrow>
                      bind_err (load_inum s entry) (\<lambda>inum. Inr (Some (inode_for_index s inum)))
                  | Inr False \<Rightarrow>
                      directory_scan s directory_name
                        (entry + int (entry_index + 1) * SIZEOF_DIRENTRY) (entry_index + 1))
            else Inr None)
      else Inl Out_of_region)"
  by pat_completeness auto
termination
  by (relation "measure (\<lambda>(s, n, entry, i). nat (DISK_END - NAME_OFFSET - entry))")
     (auto simp: in_data_def SIZEOF_DIRENTRY_def)

declare directory_scan.simps [simp del]

definition directory_inode :: "disk_state \<Rightarrow> int \<Rightarrow> string \<Rightarrow> error + int option" where
  "directory_inode s curr_dir_inode directory_name =
     bind_err (load_inode s curr_dir_inode) (\<lambda>ino.
       if i_type ino \<noteq> inode_type_directory then Inr None
       else (case data_block_pointers ino 0 of
               None \<Rightarrow> Inl Out_of_region
             | Some entry \<Rightarrow> directory_scan s directory_name entry 0))"

function find_free_entry :: "disk_state \<Rightarrow> int \<Rightarrow> nat \<Rightarrow> error + int" where
  "find_free_entry s entry index =
     (if in_data (entry + NAME_OFFSET)
      then (if data_bytes s (entry + NAME_OFFSET) \<noteq> CHR 0x00
            then find_free_entry s (entry + int (index + 1) * SIZEOF_DIRENTRY) (index + 1)
            else Inr entry)
      else Inl Out_of_region)"
  by pat_completeness auto
termination
  by (relation "measure (\<lambda>(s, entry, i). nat (DISK_END - NAME_OFFSET - entry))")
     (auto simp: in_data_def SIZEOF_DIRENTRY_def)

declare find_free_entry.simps [simp del]

definition create_inode :: "disk_state \<Rightarrow> int \<Rightarrow> string \<Rightarrow> int \<Rightarrow> error + disk_state" where
  "create_inode s parent name inode_type =
     bind_err (load_inode s parent) (\<lambda>par.
     if i_type par \<noteq> inode_type_directory then Inl Assertion_failed
     else
       let bitmap = inode_bitmap s;
           inum = first_clear_bit bitmap;
           s = s\<lparr>inode_bitmap_words := set_bit_fs bitmap inum,
                  inums_allocated := inum # inums_allocated s\<rparr>;
           bitmap = data_bitmap s;
           data_block_num = first_clear_bit bitmap;
           s = s\<lparr>data_bitmap_words := set_bit_fs bitmap data_block_num,
                  blocks_allocated := data_block_num # blocks_allocated s\<rparr>;
           data_block = data_block_for_index s data_block_num;
           inode = inode_for_index s inum
       in
       bind_err (store_inode_block s inode (Some data_block)) (\<lambda>s.
       bind_err (store_inode_type s inode inode_type) (\<lambda>s.
       bind_err (load_inode s parent) (\<lambda>par.
       (case data_block_pointers par 0 of
          None \<Rightarrow> Inl Out_of_region
        | Some entry \<Rightarrow>
            bind_err (find_free_entry s entry 0) (\<lambda>entry.
            bind_err (strncpy s (entry + NAME_OFFSET) name MAX_DIRECTORY_NAME_LENGTH) (\<lambda>s.
            bind_err (store_inum s entry inum) (\<lambda>s.
            if inode_type = inode_type_directory
            then init_direntry_datablock_with_default_directories s data_block
            else Inr s))))))))"

subsection \<open>Creating a file or a directory at a path\<close>

text \<open>
  \<^verbatim>\<open>create_file\<close> and \<^verbatim>\<open>create_dir\<close> are the same text up to the type they pass to
  \<^verbatim>\<open>create_inode\<close>. \<open>create_loop\<close> is their \<^verbatim>\<open>while\<close> loop: \<open>string\<close> is the
  variable \<^verbatim>\<open>strsep\<close> updates, \<open>None\<close> when it is null.
\<close>

lemma strsep_rest_shorter:
  "strsep string = (token, Some rest) \<Longrightarrow> length rest < length string"
  by (induction string arbitrary: token rest) (auto split: if_splits prod.splits)

function create_loop :: "int \<Rightarrow> disk_state \<Rightarrow> int \<Rightarrow> string option \<Rightarrow> error + disk_state" where
  "create_loop inode_type s in_ptr None = Inr s"
| "create_loop inode_type s in_ptr (Some string) =
     (case strsep string of
        (current_path_component, None) \<Rightarrow>
          bind_err (create_inode s in_ptr current_path_component inode_type) (\<lambda>s.
          create_loop inode_type s in_ptr None)
      | (current_path_component, Some rest) \<Rightarrow>
          (case directory_inode s in_ptr current_path_component of
             Inl e \<Rightarrow> Inl e
           | Inr None \<Rightarrow> Inr s
           | Inr (Some in_ptr) \<Rightarrow> create_loop inode_type s in_ptr (Some rest)))"
  by pat_completeness auto
termination
  by (relation "measure (\<lambda>(ty, s, p, string). case string of None \<Rightarrow> 0 | Some str \<Rightarrow> Suc (length str))")
     (auto dest: strsep_rest_shorter [OF sym])

definition create_path :: "int \<Rightarrow> disk_state \<Rightarrow> string \<Rightarrow> error + disk_state" where
  "create_path inode_type s path =
     (case path of
        [] \<Rightarrow> Inr s
      | c # path \<Rightarrow>
          if c = CHR ''/'' then create_loop inode_type s (root_inode_ptr s) (Some path)
          else Inr s)"

definition create_file :: "disk_state \<Rightarrow> string \<Rightarrow> error + disk_state" where
  "create_file s path = create_path inode_type_file s path"

definition create_dir :: "disk_state \<Rightarrow> string \<Rightarrow> error + disk_state" where
  "create_dir s path = create_path inode_type_directory s path"

subsection \<open>Printing the tree\<close>

text \<open>
  The output is the stream of characters written by \<^verbatim>\<open>printf\<close>. The recursion follows
  inode numbers stored in directory entries and need not end, so both functions take fuel:
  one unit per call of \<^verbatim>\<open>print_inode_recursive\<close> and per turn of its loop, and \<open>None\<close>
  when it runs out. \<open>print_entries\<close> is the \<^verbatim>\<open>while\<close> loop.
\<close>

definition is_dot_or_dotdot :: "string \<Rightarrow> bool" where
  "is_dot_or_dotdot name \<longleftrightarrow>
     (length name = 1 \<and> name ! 0 = CHR ''.'') \<or>
     (length name = 2 \<and> name ! 0 = CHR ''.'' \<and> name ! 1 = CHR ''.'')"

fun print_inode_recursive :: "nat \<Rightarrow> disk_state \<Rightarrow> string \<Rightarrow> int \<Rightarrow> nat \<Rightarrow> (error + string) option"
  and print_entries :: "nat \<Rightarrow> disk_state \<Rightarrow> int \<Rightarrow> nat \<Rightarrow> nat \<Rightarrow> (error + string) option" where
  "print_inode_recursive 0 s name inode level = None"
| "print_inode_recursive (Suc fuel) s name inode level =
     (let out = replicate level CHR '' '' @ name @ [CHR 0x0A] in
      if is_dot_or_dotdot name then Some (Inr out)
      else (case load_inode s inode of
              Inl e \<Rightarrow> Some (Inl e)
            | Inr ino \<Rightarrow>
                if i_type ino = inode_type_directory
                then (case data_block_pointers ino 0 of
                        None \<Rightarrow> Some (Inl Out_of_region)
                      | Some entry \<Rightarrow>
                          (case print_entries fuel s entry 0 (level + 1) of
                             None \<Rightarrow> None
                           | Some (Inl e) \<Rightarrow> Some (Inl e)
                           | Some (Inr rest) \<Rightarrow> Some (Inr (out @ rest))))
                else Some (Inr out)))"
| "print_entries 0 s entry entry_index level = None"
| "print_entries (Suc fuel) s entry entry_index level =
     (if in_data (entry + NAME_OFFSET)
      then (if data_bytes s (entry + NAME_OFFSET) \<noteq> CHR 0x00
            then (case read_str s (entry + NAME_OFFSET) of
                    Inl e \<Rightarrow> Some (Inl e)
                  | Inr name \<Rightarrow>
                      (case load_inum s entry of
                         Inl e \<Rightarrow> Some (Inl e)
                       | Inr inum \<Rightarrow>
                           (case print_inode_recursive fuel s name (inode_for_index s inum) level of
                              None \<Rightarrow> None
                            | Some (Inl e) \<Rightarrow> Some (Inl e)
                            | Some (Inr out) \<Rightarrow>
                                (case print_entries fuel s
                                        (entry + int (entry_index + 1) * SIZEOF_DIRENTRY)
                                        (entry_index + 1) level of
                                   None \<Rightarrow> None
                                 | Some (Inl e) \<Rightarrow> Some (Inl e)
                                 | Some (Inr rest) \<Rightarrow> Some (Inr (out @ rest))))))
            else Some (Inr []))
      else Some (Inl Out_of_region))"

definition print_tree :: "nat \<Rightarrow> disk_state \<Rightarrow> (error + string) option" where
  "print_tree fuel s = print_inode_recursive fuel s ''/'' (root_inode_ptr s) 0"

subsection \<open>Sequences of calls\<close>

datatype op = Create_file string | Create_dir string

fun exec_op :: "disk_state \<Rightarrow> op \<Rightarrow> error + disk_state" where
  "exec_op s (Create_file path) = create_file s path"
| "exec_op s (Create_dir path) = create_dir s path"

fun run :: "disk_state \<Rightarrow> op list \<Rightarrow> error + disk_state" where
  "run s [] = Inr s"
| "run s (x # xs) = bind_err (exec_op s x) (\<lambda>s. run s xs)"

section \<open>The effect of \<^verbatim>\<open>create_inode\<close>\<close>

lemmas layout_defs = BLOCK_SIZE_IN_BYTES_def DISK_SIZE_IN_BLOCKS_def DATA_REGION_IN_BLOCKS_def
  INODE_TABLE_IN_BLOCKS_def INODE_SIZE_IN_BYTES_def MAX_DIRECTORY_NAME_LENGTH_def CHAR_BIT_def
  SIZEOF_DIRENTRY_def NAME_OFFSET_def INODE_TABLE_BASE_def DATA_BASE_def DISK_END_def
  inode_type_file_def inode_type_directory_def BITS_PER_WORD_def

subsection \<open>Results of the primitive accesses\<close>

lemma bind_err_Inr_iff: "bind_err m f = Inr y \<longleftrightarrow> (\<exists>x. m = Inr x \<and> f x = Inr y)"
  by (cases m) (simp_all add: bind_err_def)

lemma bind_err_Inr [simp]: "bind_err (Inr x) f = f x"
  by (simp add: bind_err_def)

lemma bind_err_Inl [simp]: "bind_err (Inl e) f = Inl e"
  by (simp add: bind_err_def)

lemma wrap_int_id: "- 2147483648 \<le> x \<Longrightarrow> x < 2147483648 \<Longrightarrow> wrap_int x = x"
  by (simp add: wrap_int_def)

lemma load_inode_table [simp]:
  "is_inode_ptr p \<Longrightarrow> load_inode s p = Inr (inode_table s (inode_slot p))"
  by (simp add: load_inode_def)

lemma length_ptr_bytes [simp]: "length (ptr_bytes p) = 8"
  by (simp add: ptr_bytes_def Let_def)

lemma ptr_bytes_nonempty [simp]: "ptr_bytes p \<noteq> []"
  using length_ptr_bytes [of p] by (auto simp del: length_ptr_bytes)

lemma is_inode_ptr_not_in_data: "is_inode_ptr p \<Longrightarrow> \<not> in_data p"
  by (simp add: is_inode_ptr_def in_data_def)

lemma is_inode_ptr_numeral [simp]:
  "is_inode_ptr (numeral n) \<longleftrightarrow>
     12288 \<le> (numeral n :: int) \<and> (numeral n :: int) < 32768 \<and> (numeral n - 12288 :: int) mod 256 = 0"
  by (simp add: is_inode_ptr_def INODE_TABLE_BASE_def DATA_BASE_def BLOCK_SIZE_IN_BYTES_def
      INODE_TABLE_IN_BLOCKS_def INODE_SIZE_IN_BYTES_def)

lemma write_bytes_apply:
  "write_bytes m a cs x = (if a \<le> x \<and> x < a + int (length cs) then cs ! nat (x - a) else m x)"
proof (induction cs arbitrary: m a)
  case Nil
  then show ?case by auto
next
  case (Cons c cs)
  have "nat (x - a) = Suc (nat (x - (a + 1)))" if "a + 1 \<le> x"
    using that by simp
  then show ?case
    unfolding write_bytes.simps Cons.IH by auto
qed

lemma write_bytes_append:
  "write_bytes m a (xs @ ys) = write_bytes (write_bytes m a xs) (a + int (length xs)) ys"
  by (induction xs arbitrary: m a) (simp_all add: add.assoc)

text \<open>The 34 bytes that \<^verbatim>\<open>create_inode\<close> writes to an entry: the number and the name field.\<close>

definition name_field :: "string \<Rightarrow> char list" where
  "name_field name =
     take MAX_DIRECTORY_NAME_LENGTH name
       @ replicate (MAX_DIRECTORY_NAME_LENGTH - length name) (CHR 0x00)"

definition entry_bytes :: "int \<Rightarrow> string \<Rightarrow> char list" where
  "entry_bytes inum name = int_bytes inum @ name_field name"

text \<open>The state after the two allocations and the initialisation of the new inode.\<close>

definition after_alloc :: "disk_state \<Rightarrow> int \<Rightarrow> disk_state" where
  "after_alloc s inode_type =
     (let inum = first_clear_bit (inode_bitmap s);
          data_block_num = first_clear_bit (data_bitmap s);
          inode = inode_for_index s inum;
          slot = inode_slot inode;
          data_block = data_block_for_index s data_block_num
      in s\<lparr>inode_bitmap_words := set_bit_fs (inode_bitmap s) inum,
           inums_allocated := inum # inums_allocated s,
           data_bitmap_words := set_bit_fs (data_bitmap s) data_block_num,
           blocks_allocated := data_block_num # blocks_allocated s,
           inode_table :=
             (if is_inode_ptr inode
              then (inode_table s)
                (slot := (inode_table s slot)
                   \<lparr>data_block_pointers := (data_block_pointers (inode_table s slot))
                        (0 := Some data_block),
                    i_type := inode_type\<rparr>)
              else inode_table s),
           data_bytes :=
             (if is_inode_ptr inode then data_bytes s
              else write_bytes (write_bytes (data_bytes s) (inode + 8) (ptr_bytes (Some data_block)))
                     inode (int_bytes inode_type))\<rparr>)"

lemma length_name_field [simp]: "length (name_field name) = 30"
  by (simp add: name_field_def MAX_DIRECTORY_NAME_LENGTH_def)

lemma length_int_bytes [simp]: "length (int_bytes n) = 4"
  by (simp add: int_bytes_def)

lemma length_entry_bytes [simp]: "length (entry_bytes inum name) = 34"
  by (simp add: entry_bytes_def)

lemma name_field_nonempty [simp]: "name_field name \<noteq> []"
  by (metis length_name_field list.size(3) zero_neq_numeral)

lemma int_bytes_nonempty [simp]: "int_bytes n \<noteq> []"
  by (simp add: int_bytes_def)

lemma strncpy_Inr_iff:
  "strncpy s dst src MAX_DIRECTORY_NAME_LENGTH = Inr s' \<longleftrightarrow>
     in_data dst \<and> in_data (dst + 29) \<and>
     s' = s\<lparr>data_bytes := write_bytes (data_bytes s) dst (name_field src)\<rparr>"
proof -
  have "strncpy s dst src MAX_DIRECTORY_NAME_LENGTH = store_bytes s dst (name_field src)"
    by (simp add: strncpy_def name_field_def)
  then show ?thesis
    by (auto simp add: store_bytes_def in_data_def)
qed

lemma store_inum_Inr_iff:
  "store_inum s entry n = Inr s' \<longleftrightarrow>
     in_data entry \<and> in_data (entry + 3) \<and>
     s' = s\<lparr>data_bytes := write_bytes (data_bytes s) entry (int_bytes n)\<rparr>"
  by (auto simp add: store_inum_def store_bytes_def in_data_def)

lemma write_name_then_inum:
  "write_bytes (write_bytes m (entry + 4) (name_field name)) entry (int_bytes inum)
     = write_bytes m entry (entry_bytes inum name)"
proof (rule ext)
  fix x
  have "nat (x - (entry + 4)) = nat (x - entry) - 4" by arith
  then show "write_bytes (write_bytes m (entry + 4) (name_field name)) entry (int_bytes inum) x
     = write_bytes m entry (entry_bytes inum name) x"
    by (auto simp add: write_bytes_apply entry_bytes_def nth_append)
qed

lemma write_inum_then_name:
  "write_bytes (write_bytes m entry (int_bytes inum)) (entry + 4) (name_field name)
     = write_bytes m entry (entry_bytes inum name)"
  by (simp add: entry_bytes_def write_bytes_append)

lemma in_data_range: "in_data a \<Longrightarrow> in_data (a + n) \<Longrightarrow> 0 \<le> k \<Longrightarrow> k \<le> n \<Longrightarrow> in_data (a + k)"
  by (simp add: in_data_def)

lemma bind_err_assoc: "bind_err (bind_err m f) g = bind_err m (\<lambda>x. bind_err (f x) g)"
  by (cases m) simp_all

lemma store_entry_Inr_iff:
  "bind_err (store_inum s entry n) (\<lambda>s. strncpy s (entry + NAME_OFFSET) name MAX_DIRECTORY_NAME_LENGTH)
     = Inr s' \<longleftrightarrow>
   in_data entry \<and> in_data (entry + 33) \<and>
   s' = s\<lparr>data_bytes := write_bytes (data_bytes s) entry (entry_bytes n name)\<rparr>"
  by (auto simp add: bind_err_Inr_iff store_inum_Inr_iff strncpy_Inr_iff write_inum_then_name
      NAME_OFFSET_def in_data_def)

lemma name_entry_Inr_iff:
  "bind_err (strncpy s (entry + NAME_OFFSET) name MAX_DIRECTORY_NAME_LENGTH)
     (\<lambda>s. bind_err (store_inum s entry n) f) = Inr s' \<longleftrightarrow>
   in_data entry \<and> in_data (entry + 33) \<and>
   f (s\<lparr>data_bytes := write_bytes (data_bytes s) entry (entry_bytes n name)\<rparr>) = Inr s'"
  by (auto simp add: bind_err_Inr_iff store_inum_Inr_iff strncpy_Inr_iff write_name_then_inum
      NAME_OFFSET_def in_data_def)

lemma init_direntry_Inr_iff:
  "init_direntry_datablock_with_default_directories s d = Inr s' \<longleftrightarrow>
     in_data d \<and> in_data (d + 69) \<and>
     s' = s\<lparr>data_bytes := write_bytes (write_bytes (data_bytes s) d (entry_bytes 0 ''.''))
                   (d + 36) (entry_bytes 0 ''..'')\<rparr>"
proof -
  have "init_direntry_datablock_with_default_directories s d =
    bind_err (bind_err (store_inum s d 0) (\<lambda>s. strncpy s (d + NAME_OFFSET) ''.'' MAX_DIRECTORY_NAME_LENGTH))
      (\<lambda>s. bind_err (store_inum s (d + 36) 0)
         (\<lambda>s. strncpy s (d + 36 + NAME_OFFSET) ''..'' MAX_DIRECTORY_NAME_LENGTH))"
    by (simp add: init_direntry_datablock_with_default_directories_def Let_def bind_err_assoc
        SIZEOF_DIRENTRY_def)
  then show ?thesis
    by (auto simp add: bind_err_Inr_iff [of "bind_err _ _"] store_entry_Inr_iff in_data_def)
qed

lemma find_free_entry_in_data:
  "find_free_entry s entry index = Inr e \<Longrightarrow>
     in_data (e + NAME_OFFSET) \<and> data_bytes s (e + NAME_OFFSET) = CHR 0x00 \<and> entry \<le> e"
proof (induction s entry index rule: find_free_entry.induct)
  case (1 s entry index)
  from "1.prems" show ?case
    by (subst (asm) find_free_entry.simps)
       (auto split: if_splits dest!: "1.IH" simp: SIZEOF_DIRENTRY_def)
qed

lemma find_free_entry_data:
  "data_bytes s = data_bytes t \<Longrightarrow> find_free_entry s entry index = find_free_entry t entry index"
proof (induction s entry index rule: find_free_entry.induct)
  case (1 s entry index)
  show ?case
    using 1 by (subst (1 2) find_free_entry.simps) auto
qed

text \<open>
  \<open>inode_writable p\<close>: the two stores to the fields of the inode at \<open>p\<close> stay on the disk.
\<close>

definition inode_writable :: "int \<Rightarrow> bool" where
  "inode_writable p \<longleftrightarrow> is_inode_ptr p \<or> in_data p \<and> in_data (p + 15)"

lemma store_inode_fields:
  "bind_err (store_inode_block s p b) (\<lambda>s. bind_err (store_inode_type s p t) f) =
     (if is_inode_ptr p
      then f (s\<lparr>inode_table := (inode_table s)
                 (inode_slot p := (inode_table s (inode_slot p))
                    \<lparr>data_block_pointers := (data_block_pointers (inode_table s (inode_slot p)))(0 := b),
                     i_type := t\<rparr>)\<rparr>)
      else if in_data p \<and> in_data (p + 15)
      then f (s\<lparr>data_bytes := write_bytes (write_bytes (data_bytes s) (p + 8) (ptr_bytes b))
                                  p (int_bytes t)\<rparr>)
      else Inl Out_of_region)"
  by (auto simp add: store_inode_block_def store_inode_type_def store_bytes_def in_data_def)

lemma create_inode_unfold:
  "create_inode s parent name inode_type =
     bind_err (load_inode s parent) (\<lambda>par.
       if i_type par \<noteq> inode_type_directory then Inl Assertion_failed
       else if \<not> inode_writable (inode_for_index s (first_clear_bit (inode_bitmap s)))
       then Inl Out_of_region
       else bind_err (load_inode (after_alloc s inode_type) parent) (\<lambda>par.
         case data_block_pointers par 0 of
           None \<Rightarrow> Inl Out_of_region
         | Some pe \<Rightarrow>
             bind_err (find_free_entry (after_alloc s inode_type) pe 0) (\<lambda>entry.
             bind_err (strncpy (after_alloc s inode_type) (entry + NAME_OFFSET) name
                         MAX_DIRECTORY_NAME_LENGTH) (\<lambda>s1.
             bind_err (store_inum s1 entry (first_clear_bit (inode_bitmap s))) (\<lambda>s2.
             if inode_type = inode_type_directory
             then init_direntry_datablock_with_default_directories s2
                    (data_block_for_index s (first_clear_bit (data_bitmap s)))
             else Inr s2)))))"
  unfolding create_inode_def
  by (simp add: Let_def store_inode_fields after_alloc_def inode_writable_def
      inode_for_index_def data_block_for_index_def
      inode_bitmap_def data_bitmap_def cong: if_cong option.case_cong)

lemma after_alloc_simps [simp]:
  "fs (after_alloc s ty) = fs s"
  "inode_bitmap_words (after_alloc s ty) = set_bit_fs (inode_bitmap s) (first_clear_bit (inode_bitmap s))"
  "data_bitmap_words (after_alloc s ty) = set_bit_fs (data_bitmap s) (first_clear_bit (data_bitmap s))"
  "inums_allocated (after_alloc s ty) = first_clear_bit (inode_bitmap s) # inums_allocated s"
  "blocks_allocated (after_alloc s ty) = first_clear_bit (data_bitmap s) # blocks_allocated s"
  by (simp_all add: after_alloc_def Let_def)

lemma after_alloc_table [simp]:
  assumes "is_inode_ptr (inode_for_index s (first_clear_bit (inode_bitmap s)))"
  shows "data_bytes (after_alloc s ty) = data_bytes s"
    and "inode_table (after_alloc s ty) =
      (inode_table s)
        (inode_slot (inode_for_index s (first_clear_bit (inode_bitmap s))) :=
           (inode_table s (inode_slot (inode_for_index s (first_clear_bit (inode_bitmap s)))))
             \<lparr>data_block_pointers :=
                (data_block_pointers
                   (inode_table s (inode_slot (inode_for_index s (first_clear_bit (inode_bitmap s))))))
                (0 := Some (data_block_for_index s (first_clear_bit (data_bitmap s)))),
              i_type := ty\<rparr>)"
  using assms by (simp_all add: after_alloc_def Let_def)

definition create_inode_state :: "disk_state \<Rightarrow> int \<Rightarrow> string \<Rightarrow> int \<Rightarrow> disk_state" where
  "create_inode_state s e name inode_type =
     (let d = data_block_for_index s (first_clear_bit (data_bitmap s));
          bytes = write_bytes (data_bytes (after_alloc s inode_type)) e
                    (entry_bytes (first_clear_bit (inode_bitmap s)) name)
      in (after_alloc s inode_type)\<lparr>data_bytes :=
           (if inode_type = inode_type_directory
            then write_bytes (write_bytes bytes d (entry_bytes 0 ''.'')) (d + 36) (entry_bytes 0 ''..'')
            else bytes)\<rparr>)"

text \<open>When \<^verbatim>\<open>create_inode\<close> returns, for every parent and every inode index.\<close>

lemma create_inode_returns_iff:
  "create_inode s parent name inode_type = Inr s' \<longleftrightarrow>
     (\<exists>par. load_inode s parent = Inr par \<and> i_type par = inode_type_directory) \<and>
     inode_writable (inode_for_index s (first_clear_bit (inode_bitmap s))) \<and>
     (\<exists>par pe e. load_inode (after_alloc s inode_type) parent = Inr par \<and>
        data_block_pointers par 0 = Some pe \<and>
        find_free_entry (after_alloc s inode_type) pe 0 = Inr e \<and> in_data e \<and> in_data (e + 33) \<and>
        (inode_type = inode_type_directory \<longrightarrow>
           in_data (data_block_for_index s (first_clear_bit (data_bitmap s))) \<and>
           in_data (data_block_for_index s (first_clear_bit (data_bitmap s)) + 69)) \<and>
        s' = create_inode_state s e name inode_type)"
proof (cases "load_inode s parent")
  case (Inl err)
  then show ?thesis by (simp add: create_inode_unfold)
next
  case par: (Inr par)
  show ?thesis
  proof (cases "i_type par = inode_type_directory \<and>
      inode_writable (inode_for_index s (first_clear_bit (inode_bitmap s)))")
    case False
    with par show ?thesis by (auto simp add: create_inode_unfold)
  next
    case ok: True
    show ?thesis
    proof (cases "load_inode (after_alloc s inode_type) parent")
      case (Inl err)
      with par ok show ?thesis by (simp add: create_inode_unfold)
    next
      case par': (Inr par')
      show ?thesis
      proof (cases "data_block_pointers par' 0")
        case None
        with par ok par' show ?thesis by (simp add: create_inode_unfold)
      next
        case (Some pe)
        with par ok par' show ?thesis
          by (auto simp add: create_inode_unfold
              bind_err_Inr_iff [of "find_free_entry _ _ _"] name_entry_Inr_iff
              init_direntry_Inr_iff create_inode_state_def Let_def)
      qed
    qed
  qed
qed

text \<open>
  A new inode with an index of 80 or more: the inode table is left as it is, and the type
  and the block pointer are written to the data region, at the address of the inode. Of
  these bytes the final state holds those that the entry and the two entries of a new
  directory, written afterwards, do not cover.
\<close>

lemma create_inode_in_data_region:
  assumes c: "create_inode s parent name inode_type = Inr s'"
    and out: "\<not> is_inode_ptr (inode_for_index s (first_clear_bit (inode_bitmap s)))"
  shows "in_data (inode_for_index s (first_clear_bit (inode_bitmap s)))"
    and "in_data (inode_for_index s (first_clear_bit (inode_bitmap s)) + 15)"
    and "inode_table s' = inode_table s"
    and "data_bytes (after_alloc s inode_type) =
           write_bytes (write_bytes (data_bytes s)
             (inode_for_index s (first_clear_bit (inode_bitmap s)) + 8)
             (ptr_bytes (Some (data_block_for_index s (first_clear_bit (data_bitmap s))))))
             (inode_for_index s (first_clear_bit (inode_bitmap s))) (int_bytes inode_type)"
    and "\<exists>e. s' = create_inode_state s e name inode_type"
proof -
  from c obtain e where wr: "inode_writable (inode_for_index s (first_clear_bit (inode_bitmap s)))"
    and s': "s' = create_inode_state s e name inode_type"
    unfolding create_inode_returns_iff by blast
  from wr out show "in_data (inode_for_index s (first_clear_bit (inode_bitmap s)))"
    "in_data (inode_for_index s (first_clear_bit (inode_bitmap s)) + 15)"
    by (simp_all add: inode_writable_def)
  from out show "inode_table s' = inode_table s"
    by (simp add: s' create_inode_state_def after_alloc_def Let_def)
  from out show "data_bytes (after_alloc s inode_type) =
           write_bytes (write_bytes (data_bytes s)
             (inode_for_index s (first_clear_bit (inode_bitmap s)) + 8)
             (ptr_bytes (Some (data_block_for_index s (first_clear_bit (data_bitmap s))))))
             (inode_for_index s (first_clear_bit (inode_bitmap s))) (int_bytes inode_type)"
    by (simp add: after_alloc_def Let_def)
  from s' show "\<exists>e. s' = create_inode_state s e name inode_type" ..
qed

text \<open>The same for a parent and a new inode in the inode table.\<close>

lemma create_inode_Inr_iff:
  assumes "is_inode_ptr parent"
    and "is_inode_ptr (inode_for_index s (first_clear_bit (inode_bitmap s)))"
  shows "create_inode s parent name inode_type = Inr s' \<longleftrightarrow>
     i_type (inode_table s (inode_slot parent)) = inode_type_directory \<and>
     (\<exists>pe e. data_block_pointers (inode_table (after_alloc s inode_type) (inode_slot parent)) 0 = Some pe
        \<and> find_free_entry s pe 0 = Inr e \<and> in_data e \<and> in_data (e + 33) \<and>
        (inode_type = inode_type_directory \<longrightarrow>
           in_data (data_block_for_index s (first_clear_bit (data_bitmap s))) \<and>
           in_data (data_block_for_index s (first_clear_bit (data_bitmap s)) + 69)) \<and>
        s' = create_inode_state s e name inode_type)"
proof -
  have "find_free_entry (after_alloc s inode_type) pe 0 = find_free_entry s pe 0" for pe
    using assms(2) by (intro find_free_entry_data) simp
  with assms show ?thesis
    unfolding create_inode_returns_iff by (simp add: inode_writable_def)
qed


section \<open>Bitmaps: setting, reading and scanning\<close>

lemma bit_bit_mask:
  "bit (bit_mask n) j \<longleftrightarrow> j < 64 \<and> min 31 j = nat (BIT_OFFSET n mod 32)"
  unfolding bit_mask_def shl_int_def
  by (auto simp add: bit_signed_iff bit_push_bit_iff bit_1_iff bit_exp_iff min_def)

lemma bit_mask_nonzero: "bit_mask n \<noteq> 0"
proof -
  have "nat (BIT_OFFSET n mod 32) < 32" by simp
  then have "bit (bit_mask n) (nat (BIT_OFFSET n mod 32))"
    by (simp add: bit_bit_mask)
  then show ?thesis by auto
qed

lemma get_bit_set_bit_same: "get_bit (set_bit_fs words n) n"
proof -
  have "(words (WORD_OFFSET n) OR bit_mask n) AND bit_mask n = bit_mask n"
    by (simp add: bit_eq_iff bit_and_iff bit_or_iff)
  then show ?thesis
    by (simp add: get_bit_def set_bit_fs_def bit_mask_nonzero)
qed

lemma get_bit_set_bit_mono:
  assumes "get_bit words m" shows "get_bit (set_bit_fs words n) m"
proof (cases "WORD_OFFSET m = WORD_OFFSET n")
  case False
  with assms show ?thesis by (simp add: get_bit_def set_bit_fs_def)
next
  case True
  from assms obtain j where "bit (words (WORD_OFFSET m) AND bit_mask m) j"
    unfolding get_bit_def by (auto simp: bit_eq_iff)
  then have "bit ((words (WORD_OFFSET n) OR bit_mask n) AND bit_mask m) j"
    using True by (simp add: bit_and_iff bit_or_iff)
  then have "(words (WORD_OFFSET n) OR bit_mask n) AND bit_mask m \<noteq> 0"
    by auto
  with True show ?thesis by (simp add: get_bit_def set_bit_fs_def)
qed

lemma first_clear_from_least:
  assumes "i \<le> k" "k < BLOCK_SIZE_IN_BYTES * CHAR_BIT"
    and "\<forall>j. i \<le> j \<and> j < k \<longrightarrow> get_bit words j" and "\<not> get_bit words k"
  shows "first_clear_from words i = k"
  using assms
proof (induction words i rule: first_clear_from.induct)
  case (1 words i)
  show ?case
  proof (cases "i = k")
    case True
    with "1.prems" show ?thesis by (simp add: first_clear_from.simps)
  next
    case False
    with "1.prems" have lt: "i < k" and set: "get_bit words i" by auto
    from lt "1.prems" have "first_clear_from words (i + 1) = k"
      by (intro "1.IH") auto
    with lt set "1.prems" show ?thesis
      by (subst first_clear_from.simps) auto
  qed
qed

lemma first_clear_from_full:
  assumes "\<forall>j. i \<le> j \<and> j < BLOCK_SIZE_IN_BYTES * CHAR_BIT \<longrightarrow> get_bit words j"
  shows "first_clear_from words i = - 1"
  using assms
proof (induction words i rule: first_clear_from.induct)
  case (1 words i)
  show ?case
  proof (cases "i < BLOCK_SIZE_IN_BYTES * CHAR_BIT")
    case False
    then show ?thesis by (simp add: first_clear_from.simps)
  next
    case True
    with "1.prems" have set: "get_bit words i" by auto
    from True set "1.prems" have "first_clear_from words (i + 1) = - 1"
      by (intro "1.IH") auto
    with True set show ?thesis
      by (subst first_clear_from.simps) auto
  qed
qed

lemma first_clear_from_result:
  "first_clear_from words i = - 1 \<or>
   (i \<le> first_clear_from words i \<and> first_clear_from words i < BLOCK_SIZE_IN_BYTES * CHAR_BIT
     \<and> \<not> get_bit words (first_clear_from words i))"
proof (induction words i rule: first_clear_from.induct)
  case (1 words i)
  show ?case
  proof (cases "i < BLOCK_SIZE_IN_BYTES * CHAR_BIT \<and> get_bit words i")
    case True
    then have "first_clear_from words i = first_clear_from words (i + 1)"
      by (subst first_clear_from.simps) simp
    with True "1.IH" show ?thesis by auto
  next
    case False
    then show ?thesis by (subst (1 2 3 4) first_clear_from.simps) auto
  qed
qed

lemma first_clear_bit_range: "- 1 \<le> first_clear_bit words \<and> first_clear_bit words < 65536"
  using first_clear_from_result [of words 0]
  by (auto simp add: first_clear_bit_def layout_defs)

lemma first_clear_bit_clear:
  "0 \<le> first_clear_bit words \<Longrightarrow> \<not> get_bit words (first_clear_bit words)"
  using first_clear_from_result [of words 0] by (auto simp: first_clear_bit_def)

lemma offsets_nonneg:
  "0 \<le> n \<Longrightarrow> WORD_OFFSET n = n div 64" "0 \<le> n \<Longrightarrow> BIT_OFFSET n = n mod 64"
  by (simp_all add: WORD_OFFSET_def BIT_OFFSET_def BITS_PER_WORD_def CHAR_BIT_def
      signed_divide_int_def signed_modulo_int_def sgn_if)

lemma bit_mask_low:
  assumes "0 \<le> n" "n mod 64 < 31"
  shows "bit_mask n = 2 ^ nat (n mod 64)"
proof (rule bit_eqI)
  fix j
  have m: "n mod 64 mod 32 = n mod 64" using assms by simp
  have k: "nat (n mod 64) < 31" using assms by simp
  show "bit (bit_mask n) j \<longleftrightarrow> bit (2 ^ nat (n mod 64) :: word_t) j"
    using k by (auto simp add: bit_bit_mask offsets_nonneg assms m bit_exp_iff min_def)
qed

lemma get_bit_low:
  assumes "0 \<le> n" "n mod 64 < 31"
  shows "get_bit words n \<longleftrightarrow> bit (words (n div 64)) (nat (n mod 64))"
  using assms by (simp add: get_bit_def offsets_nonneg bit_mask_low and_exp_eq_0_iff_not_bit)

lemma get_bit_set_bit_other_low:
  assumes "0 \<le> n" "n mod 64 < 31" "0 \<le> m" "m mod 64 < 31" "m \<noteq> n"
  shows "get_bit (set_bit_fs words n) m \<longleftrightarrow> get_bit words m"
proof (cases "m div 64 = n div 64")
  case False
  with assms show ?thesis by (simp add: get_bit_def set_bit_fs_def offsets_nonneg)
next
  case True
  with assms have ne: "nat (m mod 64) \<noteq> nat (n mod 64)"
    by (metis div_mult_mod_eq nat_eq_iff2 pos_mod_sign zero_less_numeral)
  have "get_bit (set_bit_fs words n) m \<longleftrightarrow> bit (set_bit_fs words n (m div 64)) (nat (m mod 64))"
    using assms by (simp add: get_bit_low)
  also have "\<dots> \<longleftrightarrow> bit (words (m div 64)) (nat (m mod 64))"
    using True ne assms
    by (auto simp add: set_bit_fs_def offsets_nonneg bit_mask_low bit_or_iff bit_exp_iff)
  finally show ?thesis using assms by (simp add: get_bit_low)
qed

text \<open>
  The loop of \<^verbatim>\<open>first_clear_bit\<close> in terms of what \<^verbatim>\<open>get_bit\<close> reports: it scans the
  indices 0, 1, 2, ... below \<^verbatim>\<open>BLOCK_SIZE_IN_BYTES * CHAR_BIT\<close> in order and returns the
  first one that \<^verbatim>\<open>get_bit\<close> reports clear, and the sentinel \<open>-1\<close> when there is none.
  \<open>get_bit_low\<close> relates the report to the bit of the word for the offsets 0 to 30 of
  each word only.
\<close>

theorem first_clear_bit_first_fit:
  "(0 \<le> k \<and> k < BLOCK_SIZE_IN_BYTES * CHAR_BIT \<and> (\<forall>i. 0 \<le> i \<and> i < k \<longrightarrow> get_bit words i)
      \<and> \<not> get_bit words k \<longrightarrow> first_clear_bit words = k) \<and>
   ((\<forall>i. 0 \<le> i \<and> i < BLOCK_SIZE_IN_BYTES * CHAR_BIT \<longrightarrow> get_bit words i)
      \<longrightarrow> first_clear_bit words = - 1)"
  unfolding first_clear_bit_def
  using first_clear_from_least [of 0 k words] first_clear_from_full [of 0 words]
  by blast

lemma get_bit_all_ones: "get_bit (\<lambda>_. - 1) i"
  by (simp add: get_bit_def bit_mask_nonzero)

theorem first_clear_bit_first_fit_witness:
  "first_clear_bit (set_bit_fs (set_bit_fs (\<lambda>_. 0) 0) 1) = 2 \<and> first_clear_bit (\<lambda>_. - 1) = - 1"
proof -
  let ?w = "set_bit_fs (set_bit_fs (\<lambda>_. 0) 0) 1"
  have a: "get_bit ?w i" if "0 \<le> i \<and> i < 2" for i
  proof -
    from that have "i = 0 \<or> i = 1" by auto
    then show ?thesis
      by (auto intro: get_bit_set_bit_same get_bit_set_bit_mono)
  qed
  have b: "\<not> get_bit ?w 2"
    by (simp add: get_bit_set_bit_other_low) (simp add: get_bit_def)
  have c: "(2::int) < BLOCK_SIZE_IN_BYTES * CHAR_BIT"
    by (simp add: BLOCK_SIZE_IN_BYTES_def CHAR_BIT_def)
  show ?thesis
    using first_clear_bit_first_fit [of 2 ?w] first_clear_bit_first_fit [of 0 "\<lambda>_. - 1"]
      a b c get_bit_all_ones by simp
qed

text \<open>
  Claim C10. After \<^verbatim>\<open>set_bit(words, n)\<close>, \<^verbatim>\<open>get_bit(words, n)\<close> is true
  (\<open>get_bit_set_bit_same\<close>), and no other index changes as long as both bit offsets are
  at most 30 (\<open>get_bit_set_bit_other_low\<close>). Beyond that the mask is not a 64-bit
  \<open>1 << (n mod 64)\<close>: it is computed in \<^verbatim>\<open>int\<close>. On the empty bitmap, setting index 32
  sets bit 0 of word 0, so that index 0 reads as set, and setting index 31 sets the bits 31
  to 63 of word 0.
\<close>

theorem set_bit_int_shift_aliases:
  "\<not> get_bit (\<lambda>_. 0) 0 \<and> get_bit (set_bit_fs (\<lambda>_. 0) 32) 0 \<and>
   set_bit_fs (\<lambda>_. 0) 32 0 = 1 \<and> set_bit_fs (\<lambda>_. 0) 31 0 = 0xFFFFFFFF80000000"
  by (simp add: get_bit_def set_bit_fs_def WORD_OFFSET_def BIT_OFFSET_def BITS_PER_WORD_def
      CHAR_BIT_def bit_mask_def shl_int_def signed_divide_int_def signed_modulo_int_def)


section \<open>Fuel\<close>

text \<open>
  A call of \<^verbatim>\<open>print_inode_recursive\<close> that returns with some fuel returns the same with
  any more.
\<close>

lemma print_fuel_mono:
  "print_inode_recursive n s name ino lvl = Some r \<Longrightarrow>
     print_inode_recursive (n + k) s name ino lvl = Some r"
  "print_entries n s e i lvl = Some r' \<Longrightarrow> print_entries (n + k) s e i lvl = Some r'"
proof (induction n s name ino lvl and n s e i lvl arbitrary: r and r'
    rule: print_inode_recursive_print_entries.induct)
  case (1 s name inode level)
  then show ?case by simp
next
  case (2 fuel s name inode level)
  show ?case
  proof (cases "is_dot_or_dotdot name")
    case True
    with "2.prems" show ?thesis by (simp add: Let_def)
  next
    case False
    show ?thesis
    proof (cases "load_inode s inode")
      case (Inl e)
      with False "2.prems" show ?thesis by (simp add: Let_def)
    next
      case (Inr ino)
      show ?thesis
      proof (cases "i_type ino = inode_type_directory")
        case dir: True
        show ?thesis
        proof (cases "data_block_pointers ino 0")
          case None
          with False Inr dir "2.prems" show ?thesis by (simp add: Let_def)
        next
          case (Some entry)
          from "2.prems" False Inr dir Some
          obtain q where q: "print_entries fuel s entry 0 (level + 1) = Some q"
            by (auto simp add: Let_def split: option.splits)
          have "print_entries (fuel + k) s entry 0 (level + 1) = Some q"
            by (rule "2.IH" [OF refl False Inr dir Some q])
          with "2.prems" False Inr dir Some q show ?thesis
            by (simp add: Let_def)
        qed
      next
        case False
        with \<open>\<not> is_dot_or_dotdot name\<close> Inr "2.prems" show ?thesis by (simp add: Let_def)
      qed
    qed
  qed
next
  case (3 s entry entry_index level)
  then show ?case by simp
next
  case (4 fuel s entry entry_index level)
  show ?case
  proof (cases "in_data (entry + NAME_OFFSET) \<and> data_bytes s (entry + NAME_OFFSET) \<noteq> CHR 0x00")
    case False
    with "4.prems" show ?thesis by auto
  next
    case True
    then have a: "in_data (entry + NAME_OFFSET)" "data_bytes s (entry + NAME_OFFSET) \<noteq> CHR 0x00"
      by simp_all
    show ?thesis
    proof (cases "read_str s (entry + NAME_OFFSET)")
      case (Inl e)
      with a "4.prems" show ?thesis by auto
    next
      case (Inr name)
      show ?thesis
      proof (cases "load_inum s entry")
        case (Inl e)
        with a Inr "4.prems" show ?thesis by auto
      next
        case inum: (Inr inum)
        from "4.prems" a Inr inum
        obtain q where q: "print_inode_recursive fuel s name (inode_for_index s inum) level = Some q"
          by (auto split: option.splits)
        have q': "print_inode_recursive (fuel + k) s name (inode_for_index s inum) level = Some q"
          by (rule "4.IH"(1) [OF a Inr inum q])
        show ?thesis
        proof (cases q)
          case (Inl e)
          with a Inr inum q q' "4.prems" show ?thesis by auto
        next
          case out: (Inr out)
          from "4.prems" a Inr inum q out
          obtain p where p: "print_entries fuel s (entry + int (entry_index + 1) * SIZEOF_DIRENTRY)
                               (entry_index + 1) level = Some p"
            by (auto split: option.splits)
          have "print_entries (fuel + k) s (entry + int (entry_index + 1) * SIZEOF_DIRENTRY)
                               (entry_index + 1) level = Some p"
            using q out by (intro "4.IH"(2) [OF a Inr inum _ _ p]) auto
          with a Inr inum q q' out p "4.prems" show ?thesis by auto
        qed
      qed
    qed
  qed
qed

lemma print_tree_fuel: "print_tree n s = Some r \<Longrightarrow> print_tree (n + k) s = Some r"
  unfolding print_tree_def by (rule print_fuel_mono(1))


section \<open>Concrete disks\<close>

text \<open>
  \<open>returned\<close> names the state of a call that is shown to return. \<open>root_disk\<close> is the
  disk after \<^verbatim>\<open>fs_create_disk()\<close>, \<open>disk_a\<close> the disk after \<^verbatim>\<open>create_dir("/a")\<close>
  on it, \<open>disk_ab\<close> the disk after \<^verbatim>\<open>create_file("/a/b.txt")\<close> on that.
\<close>

definition returned :: "error + disk_state \<Rightarrow> disk_state" where
  "returned r = (case r of Inl e \<Rightarrow> calloc_disk | Inr s \<Rightarrow> s)"

definition root_disk :: disk_state where
  "root_disk = returned fs_create_disk"

definition disk_a :: disk_state where
  "disk_a = create_inode_state root_disk 32876 ''a'' inode_type_directory"

definition disk_ab :: disk_state where
  "disk_ab = create_inode_state disk_a 36972 ''b.txt'' inode_type_file"

lemma entry_bytes_nth:
  "i < 34 \<Longrightarrow> entry_bytes inum name ! i =
     (if i < 4 then int_bytes inum ! i
      else if i - 4 < length name then name ! (i - 4) else CHR 0x00)"
  by (auto simp add: entry_bytes_def name_field_def nth_append MAX_DIRECTORY_NAME_LENGTH_def)

lemma write_entry_apply:
  "write_bytes m e (entry_bytes inum name) x =
     (if e \<le> x \<and> x < e + 34 then entry_bytes inum name ! nat (x - e) else m x)"
  by (simp add: write_bytes_apply)

lemma fs_create_disk_eq:
  "fs_create_disk = Inr
     \<lparr>fs = \<lparr>inode_bitmap_block = 1, data_bitmap_block = 2, inode_table_start = 3,
             data_region_start = 8, root_inode = 0\<rparr>,
      inode_bitmap_words = set_bit_fs (\<lambda>_. 0) 0, data_bitmap_words = set_bit_fs (\<lambda>_. 0) 0,
      inode_table = (\<lambda>_. zero_inode)
        (0 := \<lparr>i_type = 1, i_size = 0, data_block_pointers = (\<lambda>_. None)(0 := Some 32768)\<rparr>),
      data_bytes = write_bytes (write_bytes (\<lambda>_. CHR 0x00) 32768 (entry_bytes 0 ''.''))
                     32804 (entry_bytes 0 ''..''),
      inums_allocated = [0], blocks_allocated = [0]\<rparr>"
  unfolding fs_create_disk_def
  by (simp add: calloc_disk_def Let_def load_inode_def store_inode_type_def store_inode_block_def is_inode_ptr_def
      inode_slot_def inode_for_index_def data_block_for_index_def wrap_int_def inode_bitmap_def
      data_bitmap_def init_direntry_Inr_iff in_data_def layout_defs zero_inode_def)

lemma root_disk_fields:
  "fs root_disk = \<lparr>inode_bitmap_block = 1, data_bitmap_block = 2, inode_table_start = 3,
             data_region_start = 8, root_inode = 0\<rparr>"
  "inode_bitmap_words root_disk = set_bit_fs (\<lambda>_. 0) 0"
  "data_bitmap_words root_disk = set_bit_fs (\<lambda>_. 0) 0"
  "inode_table root_disk = (\<lambda>_. zero_inode)
        (0 := \<lparr>i_type = 1, i_size = 0, data_block_pointers = (\<lambda>_. None)(0 := Some 32768)\<rparr>)"
  "data_bytes root_disk = write_bytes (write_bytes (\<lambda>_. CHR 0x00) 32768 (entry_bytes 0 ''.''))
                     32804 (entry_bytes 0 ''..'')"
  "inums_allocated root_disk = [0]" "blocks_allocated root_disk = [0]"
  by (simp_all add: root_disk_def returned_def fs_create_disk_eq)

lemmas mem_eval = write_entry_apply entry_bytes_nth int_bytes_def char_of_def in_data_def
  load_inum_def load_byte_def bytes_int_def layout_defs inode_for_index_def wrap_int_def
  data_block_for_index_def root_inode_ptr_def load_inode_def is_inode_ptr_def inode_slot_def
  inode_bitmap_def data_bitmap_def

text \<open>
  Claim C3. After \<^verbatim>\<open>fs_create_disk()\<close> the root inode is inode 0; bit 0 is set in both
  bitmaps; inode 0 has type directory and owns data block 0; the first two entries of that
  block are \<open>(0, ".")\<close> and \<open>(0, "..")\<close>; the name of every later entry slot is empty;
  and \<^verbatim>\<open>print_tree\<close>, with four units of fuel or more, returns and lists exactly the two
  entries under the root.
\<close>

theorem fs_create_disk_root:
  "fs_create_disk = Inr root_disk \<and>
   root_inode (fs root_disk) = 0 \<and>
   get_bit (inode_bitmap root_disk) 0 \<and> get_bit (data_bitmap root_disk) 0 \<and>
   load_inode root_disk (root_inode_ptr root_disk) =
     Inr \<lparr>i_type = inode_type_directory, i_size = 0,
          data_block_pointers = (\<lambda>_. None)(0 := Some (data_block_for_index root_disk 0))\<rparr> \<and>
   load_inum root_disk (data_block_for_index root_disk 0) = Inr 0 \<and>
   read_str root_disk (data_block_for_index root_disk 0 + NAME_OFFSET) = Inr ''.'' \<and>
   load_inum root_disk (data_block_for_index root_disk 0 + SIZEOF_DIRENTRY) = Inr 0 \<and>
   read_str root_disk (data_block_for_index root_disk 0 + SIZEOF_DIRENTRY + NAME_OFFSET) = Inr ''..'' \<and>
   (\<forall>k\<ge>2. data_bytes root_disk
             (data_block_for_index root_disk 0 + k * SIZEOF_DIRENTRY + NAME_OFFSET) = CHR 0x00) \<and>
   print_tree (4 + fuel) root_disk = Some (Inr ''/\<newline> .\<newline> ..\<newline>'')"
proof -
  have 1: "fs_create_disk = Inr root_disk"
    by (simp add: root_disk_def returned_def fs_create_disk_eq)
  have 2: "get_bit (inode_bitmap root_disk) 0" "get_bit (data_bitmap root_disk) 0"
    by (simp_all add: inode_bitmap_def data_bitmap_def get_bit_set_bit_same root_disk_fields)
  have 3: "load_inode root_disk (root_inode_ptr root_disk) =
     Inr \<lparr>i_type = inode_type_directory, i_size = 0,
          data_block_pointers = (\<lambda>_. None)(0 := Some (data_block_for_index root_disk 0))\<rparr>"
    by (simp add: mem_eval root_disk_fields)
  have 4: "load_inum root_disk (data_block_for_index root_disk 0) = Inr 0"
    "load_inum root_disk (data_block_for_index root_disk 0 + SIZEOF_DIRENTRY) = Inr 0"
    by (simp_all add: mem_eval root_disk_fields)
  have 5: "read_str root_disk (data_block_for_index root_disk 0 + NAME_OFFSET) = Inr ''.''"
    "read_str root_disk (data_block_for_index root_disk 0 + SIZEOF_DIRENTRY + NAME_OFFSET) = Inr ''..''"
    by (simp_all add: mem_eval read_str.simps root_disk_fields split del: if_split)
  have 6: "data_bytes root_disk
             (data_block_for_index root_disk 0 + k * SIZEOF_DIRENTRY + NAME_OFFSET) = CHR 0x00"
    if "2 \<le> k" for k
    using that by (simp add: mem_eval root_disk_fields)
  have "print_tree 4 root_disk = Some (Inr ''/\<newline> .\<newline> ..\<newline>'')"
    by (simp add: print_tree_def eval_nat_numeral is_dot_or_dotdot_def mem_eval read_str.simps
        root_disk_fields split del: if_split)
  then have 7: "print_tree (4 + fuel) root_disk = Some (Inr ''/\<newline> .\<newline> ..\<newline>'')"
    by (rule print_tree_fuel)
  show ?thesis using 1 2 3 4 5 6 7 by (simp add: root_disk_fields)
qed


theorem fs_create_disk_root_witness:
  "(2::int) \<le> 3 \<and>
   data_bytes root_disk (data_block_for_index root_disk 0 + 3 * SIZEOF_DIRENTRY + NAME_OFFSET)
     = CHR 0x00"
  using fs_create_disk_root by auto

lemmas bit_eval = first_clear_bit_def first_clear_from.simps get_bit_def set_bit_fs_def
  WORD_OFFSET_def BIT_OFFSET_def bit_mask_def shl_int_def signed_divide_int_def
  signed_modulo_int_def BLOCK_SIZE_IN_BYTES_def CHAR_BIT_def BITS_PER_WORD_def

lemma create_inode_state_fields:
  "fs (create_inode_state s e name ty) = fs s"
  "inode_bitmap_words (create_inode_state s e name ty)
     = set_bit_fs (inode_bitmap s) (first_clear_bit (inode_bitmap s))"
  "data_bitmap_words (create_inode_state s e name ty)
     = set_bit_fs (data_bitmap s) (first_clear_bit (data_bitmap s))"
  "inums_allocated (create_inode_state s e name ty) = first_clear_bit (inode_bitmap s) # inums_allocated s"
  "blocks_allocated (create_inode_state s e name ty) = first_clear_bit (data_bitmap s) # blocks_allocated s"
  "inode_table (create_inode_state s e name ty) = inode_table (after_alloc s ty)"
  "data_bytes (create_inode_state s e name ty) =
     (let d = data_block_for_index s (first_clear_bit (data_bitmap s));
          bytes = write_bytes (data_bytes (after_alloc s ty)) e
                    (entry_bytes (first_clear_bit (inode_bitmap s)) name)
      in if ty = inode_type_directory
         then write_bytes (write_bytes bytes d (entry_bytes 0 ''.'')) (d + 36) (entry_bytes 0 ''..'')
         else bytes)"
  by (simp_all add: create_inode_state_def Let_def)

lemma root_bits: "first_clear_bit (set_bit_fs (\<lambda>_. 0) 0) = 1"
  "set_bit_fs (set_bit_fs (\<lambda>_. 0) 0) 1 = (\<lambda>_. 0)(0 := 3)"
  by (simp_all add: bit_eval)

lemma disk_a_fields:
  "fs disk_a = fs root_disk"
  "inode_bitmap_words disk_a = (\<lambda>_. 0)(0 := 3)"
  "data_bitmap_words disk_a = (\<lambda>_. 0)(0 := 3)"
  "inode_table disk_a = (inode_table root_disk)
     (1 := \<lparr>i_type = 1, i_size = 0, data_block_pointers = (\<lambda>_. None)(0 := Some 36864)\<rparr>)"
  "data_bytes disk_a = write_bytes (write_bytes (write_bytes (data_bytes root_disk) 32876 (entry_bytes 1 ''a''))
      36864 (entry_bytes 0 ''.'')) 36900 (entry_bytes 0 ''..'')"
  by (simp_all add: disk_a_def create_inode_state_fields root_bits after_alloc_def Let_def
    inode_bitmap_def data_bitmap_def inode_for_index_def data_block_for_index_def wrap_int_def inode_slot_def
    layout_defs zero_inode_def root_disk_fields)

lemma step_a: "create_dir root_disk ''/a'' = Inr disk_a"
  by (simp add: create_dir_def create_path_def create_inode_Inr_iff bind_err_Inr_iff
      find_free_entry.simps mem_eval root_bits after_alloc_def Let_def disk_a_def
      root_disk_fields split del: if_split)


lemma disk_a_bits: "first_clear_bit ((\<lambda>_. 0)(0 := 3)) = 2"
  "set_bit_fs ((\<lambda>_. 0)(0 := 3)) 2 = (\<lambda>_. 0)(0 := 7)"
  by (simp_all add: bit_eval)

lemma disk_ab_fields:
  "fs disk_ab = fs root_disk"
  "inode_bitmap_words disk_ab = (\<lambda>_. 0)(0 := 7)"
  "data_bitmap_words disk_ab = (\<lambda>_. 0)(0 := 7)"
  "inode_table disk_ab = (inode_table disk_a)
     (2 := \<lparr>i_type = 0, i_size = 0, data_block_pointers = (\<lambda>_. None)(0 := Some 40960)\<rparr>)"
  "data_bytes disk_ab = write_bytes (data_bytes disk_a) 36972 (entry_bytes 2 ''b.txt'')"
  by (simp_all add: disk_ab_def create_inode_state_fields disk_a_bits after_alloc_def Let_def
    inode_bitmap_def data_bitmap_def inode_for_index_def data_block_for_index_def wrap_int_def inode_slot_def
    layout_defs zero_inode_def root_disk_fields disk_a_fields)

lemma step_ab: "create_file disk_a ''/a/b.txt'' = Inr disk_ab"
  by (simp add: create_file_def create_path_def create_inode_Inr_iff bind_err_Inr_iff
      directory_inode_def directory_scan.simps
      find_free_entry.simps mem_eval disk_a_bits after_alloc_def Let_def disk_ab_def
      root_disk_fields disk_a_fields split del: if_split)

text \<open>
  Claim C4. On a fresh disk \<^verbatim>\<open>create_dir("/a")\<close> and \<^verbatim>\<open>create_file("/a/b.txt")\<close>
  return, and \<^verbatim>\<open>print_tree\<close> then returns (with nine units of fuel or more) and prints the root, its entries in the order of their
  creation with one space of indentation, and the entries of \<open>a\<close> with two: \<open>.\<close> and
  \<open>..\<close> are printed at each level and not descended into, \<open>b.txt\<close> is printed one
  level below \<open>a\<close>.
\<close>

theorem print_tree_nested:
  "fs_create_disk = Inr root_disk \<and>
   create_dir root_disk ''/a'' = Inr disk_a \<and>
   create_file disk_a ''/a/b.txt'' = Inr disk_ab \<and>
   print_tree (9 + fuel) disk_ab =
     Some (Inr ''/\<newline> .\<newline> ..\<newline> a\<newline>  .\<newline>  ..\<newline>  b.txt\<newline>'')"
proof -
  have "print_tree 9 disk_ab =
     Some (Inr ''/\<newline> .\<newline> ..\<newline> a\<newline>  .\<newline>  ..\<newline>  b.txt\<newline>'')"
    by (simp add: print_tree_def eval_nat_numeral is_dot_or_dotdot_def mem_eval read_str.simps
        root_disk_fields disk_a_fields disk_ab_fields split del: if_split)
  then have "print_tree (9 + fuel) disk_ab =
     Some (Inr ''/\<newline> .\<newline> ..\<newline> a\<newline>  .\<newline>  ..\<newline>  b.txt\<newline>'')"
    by (rule print_tree_fuel)
  moreover have "fs_create_disk = Inr root_disk"
    by (simp add: root_disk_def returned_def fs_create_disk_eq)
  ultimately show ?thesis
    using step_a step_ab by simp
qed


lemma read_str_nil:
  "in_data p \<Longrightarrow> data_bytes s p = CHR 0x00 \<Longrightarrow> read_str s p = Inr []"
  by (simp add: read_str.simps [of s p])

lemma read_str_cons:
  "in_data p \<Longrightarrow> data_bytes s p = c \<Longrightarrow> c \<noteq> CHR 0x00 \<Longrightarrow> read_str s (p + 1) = Inr cs
     \<Longrightarrow> read_str s p = Inr (c # cs)"
  by (simp add: read_str.simps [of s p])

lemma read_str_one:
  assumes "in_data p" "in_data (p + 1)" "data_bytes s p = c" "c \<noteq> CHR 0x00" "data_bytes s (p + 1) = CHR 0x00"
  shows "read_str s p = Inr [c]"
  using assms by (intro read_str_cons read_str_nil)

lemma read_str_two:
  assumes p: "in_data p" and p2: "in_data (p + 2)"
    and c: "data_bytes s p = c" "c \<noteq> CHR 0x00"
    and c': "data_bytes s (p + 1) = c'" "c' \<noteq> CHR 0x00"
    and z: "data_bytes s (p + 2) = CHR 0x00"
  shows "read_str s p = Inr [c, c']"
proof -
  have p1: "in_data (p + 1)" using p p2 by (simp add: in_data_def)
  have "read_str s (p + 1 + 1) = Inr []"
    using p2 z by (simp add: read_str_nil add.assoc)
  then have "read_str s (p + 1) = Inr [c']"
    by (rule read_str_cons [OF p1 c'])
  then show ?thesis
    by (rule read_str_cons [OF p c])
qed

section \<open>New directories\<close>

text \<open>
  Claim C8. When \<^verbatim>\<open>create_inode\<close> is called with type directory and returns, the first
  entry of the block just allocated is \<open>(0, ".")\<close> and the second \<open>(0, "..")\<close>, whatever
  the parent is and wherever the new inode lies; and these two entries are all that is
  written to the block: apart from them and from the one entry appended to the parent, at
  \<open>e\<close>, no byte of the data region changes, the 16 bytes at the new inode excepted when
  that inode lies in the data region. A new inode in the inode table is a directory that
  owns the block.
\<close>

theorem create_inode_seeds_directory:
  assumes "create_inode s parent name inode_type_directory = Inr s'"
  shows "let d = data_block_for_index s (first_clear_bit (data_bitmap s));
             p = inode_for_index s (first_clear_bit (inode_bitmap s));
             new = inode_table s' (inode_slot p)
         in (is_inode_ptr p \<longrightarrow>
               i_type new = inode_type_directory \<and> data_block_pointers new 0 = Some d) \<and>
            load_inum s' d = Inr 0 \<and> read_str s' (d + NAME_OFFSET) = Inr ''.'' \<and>
            load_inum s' (d + SIZEOF_DIRENTRY) = Inr 0 \<and>
            read_str s' (d + SIZEOF_DIRENTRY + NAME_OFFSET) = Inr ''..'' \<and>
            (\<exists>e. \<forall>x. \<not> (e \<le> x \<and> x < e + 34) \<and> \<not> (d \<le> x \<and> x < d + 2 * SIZEOF_DIRENTRY) \<and>
                   (is_inode_ptr p \<or> \<not> (p \<le> x \<and> x < p + 16))
                   \<longrightarrow> data_bytes s' x = data_bytes s x)"
proof -
  define d where "d = data_block_for_index s (first_clear_bit (data_bitmap s))"
  define inum where "inum = first_clear_bit (inode_bitmap s)"
  define p where "p = inode_for_index s inum"
  define base where "base = data_bytes (after_alloc s inode_type_directory)"
  from assms obtain e where
    d: "in_data d" "in_data (d + 69)" and s': "s' = create_inode_state s e name inode_type_directory"
    unfolding create_inode_returns_iff d_def by auto
  have bytes: "data_bytes s' = write_bytes (write_bytes
      (write_bytes base e (entry_bytes inum name)) d (entry_bytes 0 ''.''))
      (d + 36) (entry_bytes 0 ''..'')"
    by (simp add: s' create_inode_state_def Let_def d_def inum_def base_def)
  have base: "base x = data_bytes s x" if "is_inode_ptr p \<or> \<not> (p \<le> x \<and> x < p + 16)" for x
    using that
    by (auto simp add: base_def after_alloc_def Let_def p_def inum_def write_bytes_apply)
  have e0: "data_bytes s' (d + int i) = entry_bytes 0 ''.'' ! i" if "i < 34" for i
    using that by (simp add: bytes write_bytes_apply)
  have e1: "data_bytes s' (d + 36 + int i) = entry_bytes 0 ''..'' ! i" if "i < 34" for i
    using that by (simp add: bytes write_bytes_apply)
  have b0: "data_bytes s' d = CHR 0x00" "data_bytes s' (d + 1) = CHR 0x00"
    "data_bytes s' (d + 2) = CHR 0x00" "data_bytes s' (d + 3) = CHR 0x00"
    "data_bytes s' (d + 4) = CHR ''.''" "data_bytes s' (d + 5) = CHR 0x00"
    using e0 [of 0] e0 [of 1] e0 [of 2] e0 [of 3] e0 [of 4] e0 [of 5]
    by (simp_all add: entry_bytes_nth int_bytes_def char_of_def)
  have b1: "data_bytes s' (d + 36) = CHR 0x00" "data_bytes s' (d + 37) = CHR 0x00"
    "data_bytes s' (d + 38) = CHR 0x00" "data_bytes s' (d + 39) = CHR 0x00"
    "data_bytes s' (d + 40) = CHR ''.''" "data_bytes s' (d + 41) = CHR ''.''"
    "data_bytes s' (d + 42) = CHR 0x00"
    using e1 [of 0] e1 [of 1] e1 [of 2] e1 [of 3] e1 [of 4] e1 [of 5] e1 [of 6]
    by (simp_all add: entry_bytes_nth int_bytes_def char_of_def add.assoc)
  have rng: "in_data (d + k)" if "0 \<le> k" "k \<le> 69" for k
    using d that by (simp add: in_data_def)
  have 1: "load_inum s' d = Inr 0"
    using rng [of 0] rng [of 3] by (simp add: load_inum_def b0 bytes_int_def)
  have 2: "read_str s' (d + NAME_OFFSET) = Inr ''.''"
    using rng [of 4] rng [of 5] b0
    by (intro read_str_one) (simp_all add: NAME_OFFSET_def add.assoc)
  have 3: "load_inum s' (d + SIZEOF_DIRENTRY) = Inr 0"
    using rng [of 36] rng [of 39] by (simp add: load_inum_def b1 bytes_int_def SIZEOF_DIRENTRY_def add.assoc)
  have 4: "read_str s' (d + SIZEOF_DIRENTRY + NAME_OFFSET) = Inr ''..''"
    using rng [of 40] rng [of 42] b1
    by (intro read_str_two) (simp_all add: NAME_OFFSET_def SIZEOF_DIRENTRY_def add.assoc)
  have 5: "data_bytes s' x = data_bytes s x"
    if "\<not> (e \<le> x \<and> x < e + 34) \<and> \<not> (d \<le> x \<and> x < d + 2 * SIZEOF_DIRENTRY) \<and>
        (is_inode_ptr p \<or> \<not> (p \<le> x \<and> x < p + 16))" for x
    using that base [of x] by (auto simp add: bytes write_bytes_apply SIZEOF_DIRENTRY_def)
  have 6: "i_type (inode_table s' (inode_slot p)) = inode_type_directory"
    "data_block_pointers (inode_table s' (inode_slot p)) 0 = Some d" if "is_inode_ptr p"
    using that
    by (simp_all add: s' create_inode_state_def after_alloc_def Let_def inum_def d_def p_def)
  show ?thesis
    using 1 2 3 4 5 6
    unfolding Let_def d_def [symmetric] inum_def [symmetric] p_def [symmetric] by blast
qed


lemma fs_create_disk_returns: "fs_create_disk = Inr root_disk"
  by (simp add: root_disk_def returned_def fs_create_disk_eq)

lemma create_a: "create_inode root_disk 12288 ''a'' inode_type_directory = Inr disk_a"
  by (simp add: create_inode_Inr_iff find_free_entry.simps mem_eval root_bits after_alloc_def
      Let_def disk_a_def root_disk_fields split del: if_split)

theorem create_inode_seeds_directory_witness:
  "create_inode root_disk 12288 ''a'' inode_type_directory = Inr disk_a \<and>
   load_inum disk_a 36864 = Inr 0 \<and> read_str disk_a 36868 = Inr ''.'' \<and>
   load_inum disk_a 36900 = Inr 0 \<and> read_str disk_a 36904 = Inr ''..''"
proof -
  have "data_block_for_index root_disk (first_clear_bit (data_bitmap root_disk)) = 36864"
    by (simp add: data_block_for_index_def wrap_int_def data_bitmap_def root_disk_fields root_bits layout_defs)
  then show ?thesis
    using create_inode_seeds_directory [OF create_a] create_a
    by (simp add: Let_def NAME_OFFSET_def SIZEOF_DIRENTRY_def)
qed

section \<open>Allocation\<close>

text \<open>
  The invariant of the runs from \<^verbatim>\<open>fs_create_disk\<close>. Both bitmaps hold the same bits
  and both histories the same indices; the indices are distinct and read as set; and no
  index from 1024 on reads as set, so that \<^verbatim>\<open>first_clear_bit\<close> never returns its sentinel:
  an inode with an index above 975 lies beyond the disk.
\<close>

definition alloc_inv :: "disk_state \<Rightarrow> bool" where
  "alloc_inv s \<longleftrightarrow>
     fs s = fs root_disk \<and> data_bitmap_words s = inode_bitmap_words s \<and>
     blocks_allocated s = inums_allocated s \<and> distinct (inums_allocated s) \<and>
     (\<forall>i \<in> set (inums_allocated s). get_bit (inode_bitmap_words s) i) \<and>
     (\<forall>i. 0 \<le> i \<and> get_bit (inode_bitmap_words s) i \<longrightarrow> i < 1024)"

lemma get_bit_set_bit_word:
  "get_bit (set_bit_fs words n) i \<Longrightarrow> get_bit words i \<or> WORD_OFFSET i = WORD_OFFSET n"
  by (auto simp add: get_bit_def set_bit_fs_def split: if_splits)

lemma first_clear_bit_nonneg:
  assumes "0 \<le> k" "k < BLOCK_SIZE_IN_BYTES * CHAR_BIT" "\<not> get_bit words k"
  shows "0 \<le> first_clear_bit words"
proof -
  define n where "n = (LEAST n. \<not> get_bit words (int n))"
  from assms have ex: "\<not> get_bit words (int (nat k))" by simp
  then have clear: "\<not> get_bit words (int n)"
    unfolding n_def by (rule LeastI)
  have least: "get_bit words (int j)" if "j < n" for j
    using that not_less_Least unfolding n_def by blast
  from ex have "n \<le> nat k"
    unfolding n_def by (rule Least_le)
  with assms have bound: "int n < BLOCK_SIZE_IN_BYTES * CHAR_BIT" by simp
  have "\<forall>j. 0 \<le> j \<and> j < int n \<longrightarrow> get_bit words j"
  proof (intro allI impI)
    fix j assume "0 \<le> j \<and> j < int n"
    then have "nat j < n" "j = int (nat j)" by linarith+
    with least [of "nat j"] show "get_bit words j" by simp
  qed
  then have "first_clear_from words 0 = int n"
    using bound clear by (intro first_clear_from_least) simp_all
  then show ?thesis by (simp add: first_clear_bit_def)
qed

lemma alloc_inv_root: "alloc_inv root_disk"
proof -
  have "i < 1024" if "0 \<le> i" "get_bit (set_bit_fs (\<lambda>_. 0) 0) i" for i
  proof -
    from that(2) have "get_bit (\<lambda>_. 0) i \<or> WORD_OFFSET i = WORD_OFFSET 0"
      by (rule get_bit_set_bit_word)
    then have "WORD_OFFSET i = WORD_OFFSET 0"
      by (simp add: get_bit_def)
    with that(1) show ?thesis by (simp add: offsets_nonneg)
  qed
  then show ?thesis
    by (simp add: alloc_inv_def root_disk_fields get_bit_set_bit_same)
qed

lemma alloc_inv_create_inode:
  assumes inv: "alloc_inv s" and c: "create_inode s parent name ty = Inr s'"
  shows "alloc_inv s'"
proof -
  define inum where "inum = first_clear_bit (inode_bitmap_words s)"
  from c obtain e where ptr: "inode_writable (inode_for_index s inum)"
    and s': "s' = create_inode_state s e name ty"
    unfolding create_inode_returns_iff inum_def inode_bitmap_def by auto
  from inv have fs: "fs s = fs root_disk" by (simp add: alloc_inv_def)
  from inv have low: "i < 1024" if "0 \<le> i" "get_bit (inode_bitmap_words s) i" for i
    using that by (simp add: alloc_inv_def)
  from low [of 1024] have "\<not> get_bit (inode_bitmap_words s) 1024"
    by auto
  then have nonneg: "0 \<le> inum"
    unfolding inum_def by (intro first_clear_bit_nonneg [of 1024]) (simp_all add: layout_defs)
  have "inum < 65536"
    using first_clear_bit_range [of "inode_bitmap_words s"] by (simp add: inum_def)
  with nonneg have "inode_for_index s inum = 12288 + 256 * inum"
    by (simp add: inode_for_index_def wrap_int_id fs root_disk_fields layout_defs)
  with ptr have on_disk: "inum \<le> 975"
    by (auto simp add: inode_writable_def is_inode_ptr_def in_data_def layout_defs)
  have low': "i < 1024" if "0 \<le> i" "get_bit (set_bit_fs (inode_bitmap_words s) inum) i" for i
  proof -
    from that(2) have "get_bit (inode_bitmap_words s) i \<or> WORD_OFFSET i = WORD_OFFSET inum"
      by (rule get_bit_set_bit_word)
    then show ?thesis
    proof
      assume "get_bit (inode_bitmap_words s) i"
      with that(1) show ?thesis by (rule low)
    next
      assume "WORD_OFFSET i = WORD_OFFSET inum"
      with that(1) nonneg have "i div 64 = inum div 64"
        by (simp add: offsets_nonneg)
      moreover from on_disk have "inum div 64 \<le> 15" by simp
      ultimately have "i div 64 \<le> 15" by simp
      then show ?thesis by simp
    qed
  qed
  from nonneg have clear: "\<not> get_bit (inode_bitmap_words s) inum"
    unfolding inum_def by (rule first_clear_bit_clear)
  with inv have fresh: "inum \<notin> set (inums_allocated s)"
    by (auto simp add: alloc_inv_def)
  have "inode_bitmap_words s' = set_bit_fs (inode_bitmap_words s) inum"
    "data_bitmap_words s' = set_bit_fs (inode_bitmap_words s) inum"
    "inums_allocated s' = inum # inums_allocated s"
    "blocks_allocated s' = inum # inums_allocated s"
    "fs s' = fs s"
    using inv
    by (simp_all add: s' create_inode_state_fields inum_def inode_bitmap_def data_bitmap_def
        alloc_inv_def)
  with inv fresh low' show ?thesis
    by (auto simp add: alloc_inv_def get_bit_set_bit_same get_bit_set_bit_mono)
qed

lemma create_loop_cases:
  "create_loop ty s p string = Inr s' \<Longrightarrow>
     s' = s \<or> (\<exists>parent name. create_inode s parent name ty = Inr s')"
proof (induction ty s p string rule: create_loop.induct)
  case (1 inode_type s in_ptr)
  then show ?case by simp
next
  case (2 inode_type s in_ptr string)
  obtain token rest where sep: "strsep string = (token, rest)"
    by (cases "strsep string")
  show ?case
  proof (cases rest)
    case None
    with 2 sep show ?thesis
      by (auto simp add: bind_err_Inr_iff)
  next
    case (Some r)
    with 2 sep show ?thesis
      by (auto split: sum.splits option.splits)
  qed
qed

lemma create_path_cases:
  assumes "create_path ty s path = Inr s'"
  shows "s' = s \<or> (\<exists>parent name. create_inode s parent name ty = Inr s')"
proof (cases path)
  case Nil
  with assms show ?thesis by (simp add: create_path_def)
next
  case (Cons c rest)
  show ?thesis
  proof (cases "c = CHR ''/''")
    case True
    with assms Cons have "create_loop ty s (root_inode_ptr s) (Some rest) = Inr s'"
      by (simp add: create_path_def del: create_loop.simps)
    then show ?thesis by (rule create_loop_cases)
  next
    case False
    with assms Cons show ?thesis by (simp add: create_path_def)
  qed
qed

lemma alloc_inv_exec_op:
  assumes "alloc_inv s" "exec_op s x = Inr s'" shows "alloc_inv s'"
proof -
  have "s' = s \<or> (\<exists>parent name ty. create_inode s parent name ty = Inr s')"
    using assms(2)
    by (cases x) (auto simp add: create_file_def create_dir_def dest!: create_path_cases)
  with assms(1) show ?thesis
    by (auto intro: alloc_inv_create_inode)
qed

lemma alloc_inv_run:
  "alloc_inv s \<Longrightarrow> run s ops = Inr s' \<Longrightarrow> alloc_inv s'"
  by (induction ops arbitrary: s) (auto simp add: bind_err_Inr_iff dest: alloc_inv_exec_op)

text \<open>
  Claim C1. After \<^verbatim>\<open>fs_create_disk\<close> and any sequence of \<^verbatim>\<open>create_file\<close> and
  \<^verbatim>\<open>create_dir\<close> calls that all return, the inode indices allocated so far are pairwise
  distinct, so are the data block indices, and each of them is set in its bitmap. The
  sequences include those that go on past inode index 79, whose inodes are written in the
  data region.
\<close>

theorem allocation_unique:
  assumes "bind_err fs_create_disk (\<lambda>s. run s ops) = Inr s'"
  shows "distinct (inums_allocated s') \<and> distinct (blocks_allocated s') \<and>
         (\<forall>i \<in> set (inums_allocated s'). get_bit (inode_bitmap s') i) \<and>
         (\<forall>d \<in> set (blocks_allocated s'). get_bit (data_bitmap s') d)"
proof -
  from assms have "run root_disk ops = Inr s'"
    by (simp add: fs_create_disk_returns)
  then have "alloc_inv s'"
    by (rule alloc_inv_run [OF alloc_inv_root])
  then show ?thesis
    by (simp add: alloc_inv_def inode_bitmap_def data_bitmap_def)
qed

theorem allocation_unique_witness:
  "bind_err fs_create_disk (\<lambda>s. run s [Create_dir ''/a'', Create_file ''/a/b.txt'']) = Inr disk_ab \<and>
   inums_allocated disk_ab = [2, 1, 0] \<and> blocks_allocated disk_ab = [2, 1, 0] \<and>
   distinct (inums_allocated disk_ab) \<and> distinct (blocks_allocated disk_ab) \<and>
   get_bit (inode_bitmap disk_ab) 2 \<and> get_bit (inode_bitmap disk_ab) 1 \<and>
   get_bit (inode_bitmap disk_ab) 0 \<and> get_bit (data_bitmap disk_ab) 2 \<and>
   get_bit (data_bitmap disk_ab) 1 \<and> get_bit (data_bitmap disk_ab) 0"
proof -
  have r: "bind_err fs_create_disk (\<lambda>s. run s [Create_dir ''/a'', Create_file ''/a/b.txt'']) = Inr disk_ab"
    by (simp add: fs_create_disk_returns step_a step_ab)
  have "inums_allocated disk_ab = [2, 1, 0]" "blocks_allocated disk_ab = [2, 1, 0]"
    by (simp_all add: disk_ab_def disk_a_def create_inode_state_fields inode_bitmap_def
        data_bitmap_def root_disk_fields root_bits disk_a_bits)
  with r allocation_unique [OF r] show ?thesis by simp
qed

section \<open>Paths that are not created\<close>

text \<open>
  The walk of \<^verbatim>\<open>create_file\<close> and \<^verbatim>\<open>create_dir\<close> over the components before the last:
  the directory reached and the last component, or \<open>None\<close> when \<^verbatim>\<open>directory_inode\<close>
  returned null on the way.
\<close>

function walk_dirs :: "disk_state \<Rightarrow> int \<Rightarrow> string \<Rightarrow> error + (int \<times> string) option" where
  "walk_dirs s in_ptr string =
     (case strsep string of
        (current_path_component, None) \<Rightarrow> Inr (Some (in_ptr, current_path_component))
      | (current_path_component, Some rest) \<Rightarrow>
          (case directory_inode s in_ptr current_path_component of
             Inl e \<Rightarrow> Inl e
           | Inr None \<Rightarrow> Inr None
           | Inr (Some in_ptr) \<Rightarrow> walk_dirs s in_ptr rest))"
  by pat_completeness auto
termination
  by (relation "measure (\<lambda>(s, p, string). length string)")
     (auto dest: strsep_rest_shorter [OF sym])

declare walk_dirs.simps [simp del]

lemma create_loop_walk:
  "create_loop ty s p (Some string) =
     (case walk_dirs s p string of
        Inl e \<Rightarrow> Inl e
      | Inr None \<Rightarrow> Inr s
      | Inr (Some (parent, name)) \<Rightarrow> create_inode s parent name ty)"
proof (induction s p string rule: walk_dirs.induct)
  case (1 s in_ptr string)
  obtain token rest where sep: "strsep string = (token, rest)"
    by (cases "strsep string")
  show ?case
  proof (cases rest)
    case None
    with sep show ?thesis
      by (cases "create_inode s in_ptr token ty") (simp_all add: walk_dirs.simps [of s in_ptr string])
  next
    case (Some r)
    show ?thesis
    proof (cases "directory_inode s in_ptr token")
      case (Inl e)
      with sep Some show ?thesis by (simp add: walk_dirs.simps [of s in_ptr string])
    next
      case (Inr q)
      show ?thesis
      proof (cases q)
        case None
        with sep Some Inr show ?thesis by (simp add: walk_dirs.simps [of s in_ptr string])
      next
        case (Some q')
        with sep \<open>rest = Some r\<close> Inr "1.IH" [OF sep [symmetric] \<open>rest = Some r\<close> Inr Some]
        show ?thesis
          by (simp add: walk_dirs.simps [of s in_ptr string] del: create_loop.simps)
             (simp)
      qed
    qed
  qed
qed


definition disk_f :: disk_state where
  "disk_f = create_inode_state root_disk 32876 ''f'' inode_type_file"

lemma disk_f_fields:
  "fs disk_f = fs root_disk"
  "inode_bitmap_words disk_f = (\<lambda>_. 0)(0 := 3)"
  "data_bitmap_words disk_f = (\<lambda>_. 0)(0 := 3)"
  "inode_table disk_f = (inode_table root_disk)
     (1 := \<lparr>i_type = 0, i_size = 0, data_block_pointers = (\<lambda>_. None)(0 := Some 36864)\<rparr>)"
  "data_bytes disk_f = write_bytes (data_bytes root_disk) 32876 (entry_bytes 1 ''f'')"
  by (simp_all add: disk_f_def create_inode_state_fields root_bits after_alloc_def Let_def
    inode_bitmap_def data_bitmap_def inode_for_index_def data_block_for_index_def wrap_int_def inode_slot_def
    layout_defs zero_inode_def root_disk_fields)

lemma step_f: "create_file root_disk ''/f'' = Inr disk_f"
  by (simp add: create_file_def create_path_def create_inode_Inr_iff bind_err_Inr_iff
      find_free_entry.simps mem_eval root_bits after_alloc_def Let_def disk_f_def
      root_disk_fields split del: if_split)

lemma lookup_f: "directory_inode disk_f (root_inode_ptr disk_f) ''f'' = Inr (Some 12544)"
  by (simp add: directory_inode_def directory_scan.simps mem_eval disk_f_fields root_disk_fields
      split del: if_split)

text \<open>
  The calls that are abandoned. A call whose path is empty or does not start with
  \<^verbatim>\<open>/\<close> returns with the disk unchanged. So does a call whose walk over the components
  before the last ends with \<^verbatim>\<open>directory_inode\<close> returning null: the component is not an
  entry of the directory reached, or what was reached is not a directory. When every
  component before the last is found and the last of them is not a directory, the call
  ends in the assertion of \<^verbatim>\<open>create_inode\<close>, before anything is written.
\<close>

theorem create_path_abandoned:
  "(path = [] \<or> hd path \<noteq> CHR ''/'' \<longrightarrow> create_file s path = Inr s \<and> create_dir s path = Inr s) \<and>
   (walk_dirs s (root_inode_ptr s) rest = Inr None \<longrightarrow>
      create_file s (CHR ''/'' # rest) = Inr s \<and> create_dir s (CHR ''/'' # rest) = Inr s) \<and>
   (walk_dirs s (root_inode_ptr s) rest = Inr (Some (parent, name)) \<and> is_inode_ptr parent \<and>
    i_type (inode_table s (inode_slot parent)) \<noteq> inode_type_directory \<longrightarrow>
      create_file s (CHR ''/'' # rest) = Inl Assertion_failed \<and>
      create_dir s (CHR ''/'' # rest) = Inl Assertion_failed)"
proof -
  have a: "create_path ty s path = Inr s" if "path = [] \<or> hd path \<noteq> CHR ''/''" for ty
    using that by (cases path) (simp_all add: create_path_def)
  have b: "create_path ty s (CHR ''/'' # rest) = Inr s"
    if "walk_dirs s (root_inode_ptr s) rest = Inr None" for ty
    using that by (simp add: create_path_def create_loop_walk del: create_loop.simps)
  have c: "create_path ty s (CHR ''/'' # rest) = Inl Assertion_failed"
    if "walk_dirs s (root_inode_ptr s) rest = Inr (Some (parent, name))" "is_inode_ptr parent"
      "i_type (inode_table s (inode_slot parent)) \<noteq> inode_type_directory" for ty
    using that
    by (simp add: create_path_def create_loop_walk create_inode_unfold del: create_loop.simps)
  show ?thesis
    using a b c by (simp add: create_file_def create_dir_def)
qed

theorem create_path_abandoned_witness:
  "create_file root_disk ''relative.txt'' = Inr root_disk \<and>
   create_file root_disk ''/missing/x.txt'' = Inr root_disk \<and>
   create_dir root_disk ''/missing/x'' = Inr root_disk \<and>
   create_file disk_f ''/f/x'' = Inl Assertion_failed"
proof -
  have 1: "walk_dirs root_disk (root_inode_ptr root_disk) ''missing/x.txt'' = Inr None"
    "walk_dirs root_disk (root_inode_ptr root_disk) ''missing/x'' = Inr None"
    by (simp_all add: walk_dirs.simps directory_inode_def directory_scan.simps mem_eval
        root_disk_fields split del: if_split)
  have 2: "walk_dirs disk_f (root_inode_ptr disk_f) ''f/x'' = Inr (Some (12544, ''x''))"
    by (simp add: walk_dirs.simps lookup_f)
  have 3: "is_inode_ptr 12544"
    "i_type (inode_table disk_f (inode_slot 12544)) \<noteq> inode_type_directory"
    by (simp_all add: is_inode_ptr_def inode_slot_def disk_f_fields layout_defs)
  show ?thesis
    using create_path_abandoned [of "''relative.txt''" root_disk]
      create_path_abandoned [of _ root_disk "''missing/x.txt''"]
      create_path_abandoned [of _ root_disk "''missing/x''"]
      create_path_abandoned [of _ disk_f "''f/x''" 12544 "''x''"] 1 2 3
    by simp
qed

text \<open>
  Claim C6 at a path whose direct parent is a file. \<^verbatim>\<open>directory_inode\<close> tests the type of
  the directory it searches, not of the inode it returns. After \<^verbatim>\<open>create_file("/f")\<close> the
  component \<open>f\<close> of \<^verbatim>\<open>/f/x\<close> resolves to inode 1, a file, and
  \<^verbatim>\<open>create_file("/f/x")\<close> is not abandoned: it reaches \<^verbatim>\<open>create_inode\<close> with that inode
  as parent and fails the assertion \<^verbatim>\<open>parent->type == inode_type_directory\<close>.
\<close>

theorem create_file_under_file_counterexample:
  "create_file root_disk ''/f'' = Inr disk_f \<and>
   directory_inode disk_f (root_inode_ptr disk_f) ''f'' = Inr (Some (inode_for_index disk_f 1)) \<and>
   load_inode disk_f (inode_for_index disk_f 1) =
     Inr \<lparr>i_type = inode_type_file, i_size = 0,
          data_block_pointers = (\<lambda>_. None)(0 := Some (data_block_for_index disk_f 1))\<rparr> \<and>
   create_file disk_f ''/f/x'' = Inl Assertion_failed \<and>
   create_file disk_f ''/f/x'' \<noteq> Inr disk_f"
proof -
  have "create_file disk_f ''/f/x'' = Inl Assertion_failed"
    by (simp add: create_file_def create_path_def create_loop_walk walk_dirs.simps lookup_f
        create_inode_unfold is_inode_ptr_def inode_slot_def disk_f_fields layout_defs
        del: create_loop.simps)
  moreover have "load_inode disk_f (inode_for_index disk_f 1) =
     Inr \<lparr>i_type = inode_type_file, i_size = 0,
          data_block_pointers = (\<lambda>_. None)(0 := Some (data_block_for_index disk_f 1))\<rparr>"
    by (simp add: mem_eval disk_f_fields root_disk_fields)
  moreover have "inode_for_index disk_f 1 = 12544"
    by (simp add: inode_for_index_def wrap_int_def disk_f_fields root_disk_fields layout_defs)
  ultimately show ?thesis
    using step_f lookup_f by simp
qed


section \<open>The entries that the directory loops visit\<close>

text \<open>
  Starting at the first entry with index 0, \<^verbatim>\<open>entry = &entry[++index]\<close> reaches, after
  \<open>n\<close> turns, entry number \<open>0 + 1 + ... + n\<close> of the block: the triangular number.
\<close>

definition tri :: "nat \<Rightarrow> int" where
  "tri n = int (n * (n + 1) div 2)"

definition slot_addr :: "int \<Rightarrow> nat \<Rightarrow> int" where
  "slot_addr base n = base + tri n * SIZEOF_DIRENTRY"

lemma tri_Suc: "tri (Suc n) = tri n + int n + 1"
proof -
  have "Suc n * (Suc n + 1) = n * (n + 1) + 2 * (n + 1)" by simp
  moreover have "(a + 2 * b) div 2 = a div 2 + b" for a b :: nat
    by presburger
  then have "(n * (n + 1) + 2 * (n + 1)) div 2 = n * (n + 1) div 2 + (n + 1)" .
  ultimately have "Suc n * (Suc n + 1) div 2 = n * (n + 1) div 2 + (n + 1)"
    by (simp only:)
  then show ?thesis by (simp add: tri_def)
qed

lemma tri_0 [simp]: "tri 0 = 0"
  by (simp add: tri_def)

lemma slot_addr_Suc:
  "slot_addr base (Suc n) = slot_addr base n + int (n + 1) * SIZEOF_DIRENTRY"
  by (simp add: slot_addr_def tri_Suc algebra_simps)

lemma tri_mono: "i < j \<Longrightarrow> tri i + int j \<le> tri j"
proof (induction j)
  case 0
  then show ?case by simp
next
  case (Suc j)
  show ?case
  proof (cases "i = j")
    case True
    then show ?thesis by (simp add: tri_Suc)
  next
    case False
    with Suc have "tri i + int j \<le> tri j" by simp
    then show ?thesis by (simp add: tri_Suc)
  qed
qed

lemma tri_nonneg [simp]: "0 \<le> tri n"
  by (simp add: tri_def)

lemma find_free_entry_tri:
  assumes "i \<le> n"
    and "\<forall>j. i \<le> j \<and> j < n \<longrightarrow>
           in_data (slot_addr base j + NAME_OFFSET) \<and>
           data_bytes s (slot_addr base j + NAME_OFFSET) \<noteq> CHR 0x00"
    and "in_data (slot_addr base n + NAME_OFFSET)"
    and "data_bytes s (slot_addr base n + NAME_OFFSET) = CHR 0x00"
  shows "find_free_entry s (slot_addr base i) i = Inr (slot_addr base n)"
  using assms
proof (induction "n - i" arbitrary: i)
  case 0
  then have "i = n" by simp
  with 0 show ?case by (simp add: find_free_entry.simps [of s "slot_addr base n"])
next
  case (Suc k)
  then have lt: "i < n" by simp
  with Suc.prems have here: "in_data (slot_addr base i + NAME_OFFSET)"
    "data_bytes s (slot_addr base i + NAME_OFFSET) \<noteq> CHR 0x00" by auto
  have "find_free_entry s (slot_addr base (Suc i)) (Suc i) = Inr (slot_addr base n)"
    using Suc.hyps(2) lt Suc.prems by (intro Suc.hyps(1)) auto
  with here show ?case
    by (simp add: find_free_entry.simps [of s "slot_addr base i"] slot_addr_Suc)
qed


section \<open>Files created one after the other in the root\<close>

text \<open>The word 0 of a bitmap after the indices 0 to \<open>n - 1\<close> have been set in order.\<close>

definition bits_below :: "nat \<Rightarrow> word_t" where
  "bits_below n = (if n \<le> 31 then mask n else - 1)"

lemma get_bit_bits_below:
  assumes "0 \<le> j" "j \<le> 30"
  shows "get_bit ((\<lambda>_. 0)(0 := bits_below n)) j \<longleftrightarrow> nat j < n"
proof -
  from assms have j: "j mod 64 = j" "j div 64 = 0" by simp_all
  have "bit (bits_below n) (nat j) \<longleftrightarrow> nat j < n"
    using assms by (auto simp add: bits_below_def bit_mask_iff)
  with assms j show ?thesis by (simp add: get_bit_low)
qed

lemma bit_mask_31: "bit_mask 31 = 0xFFFFFFFF80000000"
  by (simp add: bit_mask_def shl_int_def BIT_OFFSET_def BITS_PER_WORD_def CHAR_BIT_def
      signed_modulo_int_def)

lemma first_clear_bits_below:
  assumes "n \<le> 31"
  shows "first_clear_bit ((\<lambda>_. 0)(0 := bits_below n)) = int n"
proof -
  let ?w = "(\<lambda>_. 0)(0 := bits_below n)"
  have 1: "\<forall>j. 0 \<le> j \<and> j < int n \<longrightarrow> get_bit ?w j"
    using assms by (auto simp add: get_bit_bits_below)
  have 2: "\<not> get_bit ?w (int n)"
  proof (cases "n = 31")
    case True
    have "(mask 31 :: word_t) AND 0xFFFFFFFF80000000 = 0"
      by (simp add: mask_eq_exp_minus_1)
    with True show ?thesis
      by (simp add: get_bit_def bit_mask_31 bits_below_def offsets_nonneg)
  next
    case False
    with assms show ?thesis by (simp add: get_bit_bits_below)
  qed
  have 3: "int n < BLOCK_SIZE_IN_BYTES * CHAR_BIT"
    using assms by (simp add: BLOCK_SIZE_IN_BYTES_def CHAR_BIT_def)
  show ?thesis
    unfolding first_clear_bit_def
    by (rule first_clear_from_least [OF _ 3 1 2]) simp
qed

lemma set_bit_bits_below:
  assumes "n \<le> 31"
  shows "set_bit_fs ((\<lambda>_. 0)(0 := bits_below n)) (int n) = (\<lambda>_. 0)(0 := bits_below (Suc n))"
proof (cases "n = 31")
  case True
  have "(mask 31 :: word_t) OR 0xFFFFFFFF80000000 = - 1"
    by (simp add: mask_eq_exp_minus_1)
  with True show ?thesis
    by (simp add: set_bit_fs_def bit_mask_31 bits_below_def offsets_nonneg)
next
  case False
  with assms have n: "n \<le> 30" by simp
  then have "bit_mask (int n) = 2 ^ n"
    using bit_mask_low [of "int n"] by simp
  moreover have "mask n OR 2 ^ n = (mask (Suc n) :: word_t)"
    by (simp add: mask_Suc_exp or.commute)
  ultimately show ?thesis
    using n by (simp add: set_bit_fs_def bits_below_def offsets_nonneg)
qed


text \<open>
  \<open>root_ok s m n\<close>: the superblock and the root inode are as \<^verbatim>\<open>fs_create_disk\<close> left
  them, the indices 0 to \<open>n - 1\<close> have been allocated in both bitmaps, and the root
  directory has \<open>m\<close> entries: of the entries that the loops visit, exactly the first
  \<open>m\<close> have a name.
\<close>

definition root_ok :: "disk_state \<Rightarrow> nat \<Rightarrow> nat \<Rightarrow> bool" where
  "root_ok s m n \<longleftrightarrow>
     fs s = fs root_disk \<and> inode_table s 0 = inode_table root_disk 0 \<and>
     inode_bitmap_words s = (\<lambda>_. 0)(0 := bits_below n) \<and>
     data_bitmap_words s = (\<lambda>_. 0)(0 := bits_below n) \<and>
     (\<forall>j. data_bytes s (slot_addr 32768 j + NAME_OFFSET) \<noteq> CHR 0x00 \<longleftrightarrow> j < m)"

text \<open>The disk after \<^verbatim>\<open>create_file\<close> of a file in such a root.\<close>

definition add_root_file :: "disk_state \<Rightarrow> nat \<Rightarrow> nat \<Rightarrow> string \<Rightarrow> disk_state" where
  "add_root_file s m n name =
     s\<lparr>inode_bitmap_words := (\<lambda>_. 0)(0 := bits_below (Suc n)),
       inums_allocated := int n # inums_allocated s,
       data_bitmap_words := (\<lambda>_. 0)(0 := bits_below (Suc n)),
       blocks_allocated := int n # blocks_allocated s,
       inode_table := (inode_table s)
         (int n := (inode_table s (int n))
            \<lparr>data_block_pointers := (data_block_pointers (inode_table s (int n)))
                 (0 := Some ((8 + int n) * 4096)),
             i_type := 0\<rparr>),
       data_bytes := write_bytes (data_bytes s) (slot_addr 32768 m) (entry_bytes (int n) name)\<rparr>"

fun root_files :: "disk_state \<Rightarrow> nat \<Rightarrow> nat \<Rightarrow> string list \<Rightarrow> disk_state" where
  "root_files s m n [] = s"
| "root_files s m n (x # xs) = root_files (add_root_file s m n x) (Suc m) (Suc n) xs"

lemma strsep_no_slash: "CHR ''/'' \<notin> set name \<Longrightarrow> strsep name = (name, None)"
  by (induction name) auto

lemma tri_le: "i \<le> j \<Longrightarrow> tri i \<le> tri j"
  using tri_mono [of i j] by (cases "i = j") auto

lemma slot_in_data:
  assumes "j \<le> 100" "0 \<le> k" "k \<le> 35"
  shows "in_data (slot_addr 32768 j + k)"
proof -
  have "tri j \<le> tri 100" using assms by (intro tri_le)
  also have "tri 100 = 5050" by (simp add: tri_def)
  finally show ?thesis
    using assms tri_nonneg [of j] by (simp add: slot_addr_def in_data_def layout_defs)
qed

lemma slot_name_in_entry:
  "slot_addr b m \<le> slot_addr b j + NAME_OFFSET \<and> slot_addr b j + NAME_OFFSET < slot_addr b m + 34
     \<longleftrightarrow> j = m"
proof -
  consider "j < m" | "j = m" | "m < j" by linarith
  then show ?thesis
  proof cases
    case 1
    from tri_mono [OF 1] 1 show ?thesis
      by (simp add: slot_addr_def layout_defs)
  next
    case 2
    then show ?thesis by (simp add: slot_addr_def layout_defs)
  next
    case 3
    from tri_mono [OF 3] 3 show ?thesis
      by (simp add: slot_addr_def layout_defs)
  qed
qed

lemma create_file_in_root:
  assumes ok: "root_ok s m n" and n: "1 \<le> n" "n \<le> 31" and m: "m \<le> 100"
    and name: "name \<noteq> []" "CHR 0x00 \<notin> set name" "CHR ''/'' \<notin> set name"
  shows "create_file s (CHR ''/'' # name) = Inr (add_root_file s m n name)"
    and "root_ok (add_root_file s m n name) (Suc m) (Suc n)"
proof -
  from ok have fs: "fs s = fs root_disk" and root: "inode_table s 0 = inode_table root_disk 0"
    and ib: "inode_bitmap_words s = (\<lambda>_. 0)(0 := bits_below n)"
    and db: "data_bitmap_words s = (\<lambda>_. 0)(0 := bits_below n)"
    and names: "\<And>j. data_bytes s (slot_addr 32768 j + NAME_OFFSET) \<noteq> CHR 0x00 \<longleftrightarrow> j < m"
    by (simp_all add: root_ok_def)
  have fcb: "first_clear_bit (inode_bitmap s) = int n" "first_clear_bit (data_bitmap s) = int n"
    using n by (simp_all add: inode_bitmap_def data_bitmap_def ib db first_clear_bits_below)
  have ptrs: "root_inode_ptr s = 12288" "inode_for_index s (int n) = 12288 + 256 * int n"
    "data_block_for_index s (int n) = (8 + int n) * 4096"
    using n
    by (simp_all add: root_inode_ptr_def inode_for_index_def data_block_for_index_def wrap_int_id fs
        root_disk_fields layout_defs)
  have slots: "inode_slot 12288 = 0" "inode_slot (12288 + 256 * int n) = int n"
    "is_inode_ptr 12288" "is_inode_ptr (12288 + 256 * int n)"
    using n by (simp_all add: inode_slot_def is_inode_ptr_def layout_defs)
  have free: "find_free_entry s 32768 0 = Inr (slot_addr 32768 m)"
  proof -
    have "data_bytes s (slot_addr 32768 m + NAME_OFFSET) = CHR 0x00"
      using names [of m] by simp
    then have "find_free_entry s (slot_addr 32768 0) 0 = Inr (slot_addr 32768 m)"
      using m names slot_in_data [of _ 4]
      by (intro find_free_entry_tri) (simp_all add: NAME_OFFSET_def)
    then show ?thesis by (simp add: slot_addr_def)
  qed
  have state: "create_inode_state s (slot_addr 32768 m) name inode_type_file
                 = add_root_file s m n name"
    using n
    by (simp add: create_inode_state_def after_alloc_def Let_def fcb ptrs slots
        add_root_file_def inode_type_file_def inode_type_directory_def
        inode_bitmap_def data_bitmap_def ib db set_bit_bits_below first_clear_bits_below)
  have "create_inode s 12288 name inode_type_file = Inr (add_root_file s m n name)"
    using n m slot_in_data [of m 0] slot_in_data [of m 33]
    by (simp add: create_inode_Inr_iff slots root root_disk_fields fcb ptrs after_alloc_def
        Let_def free state [unfolded inode_type_file_def] inode_type_file_def
        inode_type_directory_def)
  then show "create_file s (CHR ''/'' # name) = Inr (add_root_file s m n name)"
    using name by (simp add: create_file_def create_path_def strsep_no_slash ptrs)
  have "data_bytes (add_root_file s m n name) (slot_addr 32768 j + NAME_OFFSET) \<noteq> CHR 0x00
          \<longleftrightarrow> j < Suc m" for j
  proof (cases "j = m")
    case True
    from name have "name ! 0 \<noteq> CHR 0x00"
      by (cases name) auto
    with True name show ?thesis
      by (simp add: add_root_file_def write_bytes_apply entry_bytes_nth NAME_OFFSET_def)
  next
    case False
    with slot_name_in_entry [of 32768 m j] names [of j] show ?thesis
      by (auto simp add: add_root_file_def write_bytes_apply)
  qed
  with n fs root show "root_ok (add_root_file s m n name) (Suc m) (Suc n)"
    by (simp add: root_ok_def add_root_file_def)
qed

lemma run_root_files:
  assumes "root_ok s m n" "1 \<le> n" "n + length names \<le> 32" "m + length names \<le> 101"
    and "\<forall>x \<in> set names. x \<noteq> [] \<and> CHR 0x00 \<notin> set x \<and> CHR ''/'' \<notin> set x"
  shows "run s (map (\<lambda>x. Create_file (CHR ''/'' # x)) names) = Inr (root_files s m n names) \<and>
         root_ok (root_files s m n names) (m + length names) (n + length names)"
  using assms
proof (induction names arbitrary: s m n)
  case Nil
  then show ?case by simp
next
  case (Cons x xs)
  from Cons.prems have step:
    "create_file s (CHR ''/'' # x) = Inr (add_root_file s m n x)"
    "root_ok (add_root_file s m n x) (Suc m) (Suc n)"
    by (auto intro!: create_file_in_root)
  from Cons.prems have
    "run (add_root_file s m n x) (map (\<lambda>x. Create_file (CHR ''/'' # x)) xs)
       = Inr (root_files (add_root_file s m n x) (Suc m) (Suc n) xs) \<and>
     root_ok (root_files (add_root_file s m n x) (Suc m) (Suc n) xs)
       (Suc m + length xs) (Suc n + length xs)"
    by (intro Cons.IH [OF step(2)]) auto
  with step(1) show ?case by simp
qed


section \<open>Exhaustion\<close>

lemma root_ok_root_disk: "root_ok root_disk 2 1"
proof -
  have "data_bytes root_disk (slot_addr 32768 j + NAME_OFFSET) \<noteq> CHR 0x00 \<longleftrightarrow> j < 2" for j
  proof -
    consider "j = 0" | "j = 1" | "1 < j" by linarith
    then show ?thesis
    proof cases
      case 1
      then show ?thesis by (simp add: slot_addr_def mem_eval root_disk_fields)
    next
      case 2
      then show ?thesis by (simp add: slot_addr_def tri_def mem_eval root_disk_fields)
    next
      case 3
      from tri_mono [OF 3] 3 have "3 \<le> tri j" by (simp add: tri_def)
      with 3 show ?thesis
        by (simp add: slot_addr_def root_disk_fields write_bytes_apply layout_defs)
    qed
  qed
  moreover have "set_bit_fs (\<lambda>_. 0) 0 = (\<lambda>_. 0)(0 := bits_below 1)"
    by (simp add: bit_eval bits_below_def)
  ultimately show ?thesis
    by (simp add: root_ok_def root_disk_fields)
qed

definition disk_full :: disk_state where
  "disk_full = root_files root_disk 2 1 (replicate 31 ''f'')"

definition disk_over :: disk_state where
  "disk_over = create_inode_state disk_full (slot_addr 32768 33) ''x'' inode_type_file"

lemma run_disk_full:
  "run root_disk (replicate 31 (Create_file ''/f'')) = Inr disk_full" "root_ok disk_full 33 32"
proof -
  have "map (\<lambda>x. Create_file (CHR ''/'' # x)) (replicate 31 ''f'') = replicate 31 (Create_file ''/f'')"
    by simp
  with run_root_files [OF root_ok_root_disk, of "replicate 31 ''f''"]
  show "run root_disk (replicate 31 (Create_file ''/f'')) = Inr disk_full" "root_ok disk_full 33 32"
    by (simp_all add: disk_full_def)
qed

lemma get_bit_all_ones_word:
  "0 \<le> j \<Longrightarrow> j < 64 \<Longrightarrow> get_bit ((\<lambda>_. 0)(0 := - 1)) j"
  by (simp add: get_bit_def offsets_nonneg bit_mask_nonzero)

lemma first_clear_bit_all_ones_word: "first_clear_bit ((\<lambda>_. 0)(0 := - 1)) = 64"
proof -
  have "\<not> get_bit ((\<lambda>_. 0)(0 := - 1)) 64"
    by (simp add: get_bit_def offsets_nonneg)
  moreover have "(64::int) < BLOCK_SIZE_IN_BYTES * CHAR_BIT"
    by (simp add: layout_defs)
  ultimately show ?thesis
    unfolding first_clear_bit_def
    by (intro first_clear_from_least) (auto simp add: get_bit_all_ones_word)
qed

lemma disk_full_bitmaps:
  "inode_bitmap_words disk_full = (\<lambda>_. 0)(0 := - 1)"
  "data_bitmap_words disk_full = (\<lambda>_. 0)(0 := - 1)"
  using run_disk_full(2) by (simp_all add: root_ok_def bits_below_def)

lemma create_over:
  "create_inode disk_full 12288 ''x'' inode_type_file = Inr disk_over"
  "create_file disk_full ''/x'' = Inr disk_over"
proof -
  from run_disk_full(2) have fs: "fs disk_full = fs root_disk"
    and root: "inode_table disk_full 0 = inode_table root_disk 0"
    and names: "\<And>j. data_bytes disk_full (slot_addr 32768 j + NAME_OFFSET) \<noteq> CHR 0x00 \<longleftrightarrow> j < 33"
    by (simp_all add: root_ok_def)
  have "data_bytes disk_full (slot_addr 32768 33 + NAME_OFFSET) = CHR 0x00"
    using names [of 33] by simp
  then have "find_free_entry disk_full (slot_addr 32768 0) 0 = Inr (slot_addr 32768 33)"
    using names slot_in_data [of _ 4]
    by (intro find_free_entry_tri) (simp_all add: NAME_OFFSET_def)
  then have free: "find_free_entry disk_full 32768 0 = Inr (slot_addr 32768 33)"
    by (simp add: slot_addr_def)
  show c: "create_inode disk_full 12288 ''x'' inode_type_file = Inr disk_over"
    using slot_in_data [of 33 0] slot_in_data [of 33 33]
    by (simp add: create_inode_Inr_iff disk_over_def free inode_bitmap_def data_bitmap_def
        disk_full_bitmaps first_clear_bit_all_ones_word after_alloc_def Let_def root fs
        root_disk_fields inode_for_index_def wrap_int_def is_inode_ptr_def inode_slot_def layout_defs)
  then show "create_file disk_full ''/x'' = Inr disk_over"
    by (simp add: create_file_def create_path_def root_inode_ptr_def inode_for_index_def wrap_int_def fs
        root_disk_fields layout_defs)
qed

section \<open>Reading back what was written\<close>

lemma strcmp_eq_True:
  assumes "\<forall>i < length str. data_bytes s (p + int i) = str ! i"
    and "data_bytes s (p + int (length str)) = CHR 0x00"
    and "in_data p" "in_data (p + int (length str))"
  shows "strcmp_eq s p str = Inr True"
  using assms
proof (induction str arbitrary: p)
  case Nil
  then show ?case by (simp add: load_byte_def)
next
  case (Cons c cs)
  have "strcmp_eq s (p + 1) cs = Inr True"
  proof (rule Cons.IH)
    show "\<forall>i < length cs. data_bytes s (p + 1 + int i) = cs ! i"
      using Cons.prems(1) by (auto simp add: add.assoc dest: spec [of _ "Suc _"])
    show "data_bytes s (p + 1 + int (length cs)) = CHR 0x00"
      using Cons.prems(2) by (simp add: add.assoc)
    show "in_data (p + 1)" "in_data (p + 1 + int (length cs))"
      using Cons.prems(3,4) by (simp_all add: in_data_def)
  qed
  moreover have "data_bytes s p = c"
    using Cons.prems(1) by (auto dest: spec [of _ 0])
  ultimately show ?case
    using Cons.prems(3) by (simp add: load_byte_def)
qed

lemma strcmp_eq_same:
  assumes "\<forall>i \<le> length str. data_bytes t (p + int i) = data_bytes s (p + int i)"
  shows "strcmp_eq t p str = strcmp_eq s p str"
  using assms
proof (induction str arbitrary: p)
  case Nil
  then show ?case by (simp add: load_byte_def)
next
  case (Cons c cs)
  have "strcmp_eq t (p + 1) cs = strcmp_eq s (p + 1) cs"
  proof (rule Cons.IH, intro allI impI)
    fix i assume "i \<le> length cs"
    with Cons.prems have "data_bytes t (p + int (Suc i)) = data_bytes s (p + int (Suc i))"
      by (intro Cons.prems [rule_format]) simp
    then show "data_bytes t (p + 1 + int i) = data_bytes s (p + 1 + int i)"
      by (simp add: add.assoc)
  qed
  moreover have "data_bytes t p = data_bytes s p"
    using Cons.prems by (auto dest: spec [of _ 0])
  ultimately show ?case
    by (simp add: load_byte_def)
qed

lemma read_str_eq:
  assumes "CHR 0x00 \<notin> set str"
    and "\<forall>i < length str. data_bytes s (p + int i) = str ! i"
    and "data_bytes s (p + int (length str)) = CHR 0x00"
    and "in_data p" "in_data (p + int (length str))"
  shows "read_str s p = Inr str"
  using assms
proof (induction str arbitrary: p)
  case Nil
  then show ?case by (simp add: read_str_nil)
next
  case (Cons c cs)
  have "read_str s (p + 1) = Inr cs"
  proof (rule Cons.IH)
    show "CHR 0x00 \<notin> set cs" using Cons.prems(1) by simp
    show "\<forall>i < length cs. data_bytes s (p + 1 + int i) = cs ! i"
      using Cons.prems(2) by (auto simp add: add.assoc dest: spec [of _ "Suc _"])
    show "data_bytes s (p + 1 + int (length cs)) = CHR 0x00"
      using Cons.prems(3) by (simp add: add.assoc)
    show "in_data (p + 1)" "in_data (p + 1 + int (length cs))"
      using Cons.prems(4,5) by (simp_all add: in_data_def)
  qed
  moreover have "data_bytes s p = c"
    using Cons.prems(2) by (auto dest: spec [of _ 0])
  moreover have "c \<noteq> CHR 0x00" using Cons.prems(1) by auto
  ultimately show ?case
    using Cons.prems(4) by (intro read_str_cons)
qed


lemma bytes_int_int_bytes:
  assumes "- 1 \<le> n" "n < 65536"
  shows "bytes_int (char_of n) (char_of (n div 256)) (char_of (n div 65536))
           (char_of (n div 16777216)) = n"
proof (cases "n = - 1")
  case True
  then show ?thesis by (simp add: bytes_int_def)
next
  case False
  with assms have n: "0 \<le> n" by simp
  with assms have "n div 65536 = 0" "n div 16777216 = 0" by simp_all
  moreover from n assms have "n div 256 < 256" by simp
  with n have "n div 256 mod 256 = n div 256" by simp
  moreover have "n mod 256 + 256 * (n div 256) = n" by simp
  ultimately show ?thesis
    using assms by (simp add: bytes_int_def Let_def)
qed

lemma load_inum_entry:
  assumes "\<forall>i < 4. data_bytes s (e + int i) = int_bytes n ! i" "in_data e" "in_data (e + 3)"
    and "- 1 \<le> n" "n < 65536"
  shows "load_inum s e = Inr n"
proof -
  have "data_bytes s e = char_of n" "data_bytes s (e + 1) = char_of (n div 256)"
    "data_bytes s (e + 2) = char_of (n div 65536)" "data_bytes s (e + 3) = char_of (n div 16777216)"
    using assms(1) [rule_format, of 0] assms(1) [rule_format, of 1]
      assms(1) [rule_format, of 2] assms(1) [rule_format, of 3]
    by (simp_all add: int_bytes_def)
  then show ?thesis
    using assms by (simp add: load_inum_def bytes_int_int_bytes)
qed


lemma directory_scan_after_append:
  assumes "find_free_entry s entry i = Inr e"
    and "directory_scan s nm entry i = Inr None"
    and "\<forall>x. entry \<le> x \<and> x < e \<longrightarrow> data_bytes s' x = data_bytes s x"
    and "length nm \<le> 30"
    and "\<forall>k. directory_scan s' nm e k = r"
  shows "directory_scan s' nm entry i = r"
  using assms
proof (induction s entry i rule: find_free_entry.induct)
  case (1 s entry index)
  let ?nxt = "entry + int (index + 1) * SIZEOF_DIRENTRY"
  from "1.prems"(1) have in_d: "in_data (entry + NAME_OFFSET)"
    by (subst (asm) find_free_entry.simps) (auto split: if_splits)
  show ?case
  proof (cases "data_bytes s (entry + NAME_OFFSET) = CHR 0x00")
    case True
    with "1.prems"(1) in_d have "e = entry"
      by (subst (asm) find_free_entry.simps) simp
    with "1.prems"(5) show ?thesis by simp
  next
    case False
    with "1.prems"(1) in_d have nxt: "find_free_entry s ?nxt (index + 1) = Inr e"
      by (subst (asm) find_free_entry.simps) simp
    then have le: "?nxt \<le> e"
      by (auto dest: find_free_entry_in_data)
    from "1.prems"(2) False in_d have cmp: "strcmp_eq s (entry + NAME_OFFSET) nm = Inr False"
      and rest: "directory_scan s nm ?nxt (index + 1) = Inr None"
      by (subst (asm) directory_scan.simps; auto simp add: bind_err_def split: sum.splits bool.splits if_splits)+
    have same: "data_bytes s' x = data_bytes s x" if "entry \<le> x" "x < ?nxt" for x
      using that le "1.prems"(3) by simp
    have "strcmp_eq s' (entry + NAME_OFFSET) nm = strcmp_eq s (entry + NAME_OFFSET) nm"
      using "1.prems"(4) by (intro strcmp_eq_same) (auto intro!: same simp add: layout_defs)
    moreover have "data_bytes s' (entry + NAME_OFFSET) = data_bytes s (entry + NAME_OFFSET)"
      by (intro same) (simp_all add: layout_defs)
    moreover have "entry \<le> ?nxt" by (simp add: layout_defs)
    then have "directory_scan s' nm ?nxt (index + 1) = r"
      using "1.prems"(3,4,5) le
      by (intro "1.IH" [OF in_d False nxt rest]) auto
    ultimately show ?thesis
      using False in_d cmp by (subst directory_scan.simps) simp
  qed
qed


lemma find_free_entry_same:
  assumes "find_free_entry s entry i = Inr e"
    and "\<forall>x. entry \<le> x \<and> x < e + SIZEOF_DIRENTRY \<longrightarrow> data_bytes t x = data_bytes s x"
  shows "find_free_entry t entry i = Inr e"
  using assms
proof (induction s entry i rule: find_free_entry.induct)
  case (1 s entry index)
  let ?nxt = "entry + int (index + 1) * SIZEOF_DIRENTRY"
  from "1.prems"(1) have in_d: "in_data (entry + NAME_OFFSET)"
    by (subst (asm) find_free_entry.simps) (auto split: if_splits)
  from "1.prems"(1) have le: "entry \<le> e"
    by (auto dest: find_free_entry_in_data)
  then have same: "data_bytes t (entry + NAME_OFFSET) = data_bytes s (entry + NAME_OFFSET)"
    using "1.prems"(2) by (simp add: layout_defs)
  show ?case
  proof (cases "data_bytes s (entry + NAME_OFFSET) = CHR 0x00")
    case True
    with "1.prems"(1) in_d have "e = entry"
      by (subst (asm) find_free_entry.simps) simp
    with True in_d same show ?thesis
      by (subst find_free_entry.simps) simp
  next
    case False
    with "1.prems"(1) in_d have nxt: "find_free_entry s ?nxt (index + 1) = Inr e"
      by (subst (asm) find_free_entry.simps) simp
    have "entry \<le> ?nxt" by (simp add: layout_defs)
    then have "find_free_entry t ?nxt (index + 1) = Inr e"
      using "1.prems"(2) by (intro "1.IH" [OF in_d False nxt]) auto
    with False in_d same show ?thesis
      by (subst find_free_entry.simps) simp
  qed
qed

lemma inode_slot_inj:
  assumes "is_inode_ptr p" "is_inode_ptr q" "inode_slot p = inode_slot q"
  shows "p = q"
proof -
  from assms(1,2) have "(p - INODE_TABLE_BASE) mod 256 = 0" "(q - INODE_TABLE_BASE) mod 256 = 0"
    by (simp_all add: is_inode_ptr_def INODE_SIZE_IN_BYTES_def)
  moreover from assms(3) have "(p - INODE_TABLE_BASE) div 256 = (q - INODE_TABLE_BASE) div 256"
    by (simp add: inode_slot_def INODE_SIZE_IN_BYTES_def)
  ultimately have "p - INODE_TABLE_BASE = q - INODE_TABLE_BASE"
    by (metis mult_div_mod_eq)
  then show ?thesis by simp
qed

text \<open>What a returning \<^verbatim>\<open>create_inode\<close> leaves in the data region.\<close>

lemma create_inode_written:
  assumes c: "create_inode s parent name ty = Inr s'"
    and par: "is_inode_ptr parent"
    and new: "is_inode_ptr (inode_for_index s (first_clear_bit (inode_bitmap s)))"
    and pe: "data_block_pointers (inode_table s' (inode_slot parent)) 0 = Some pe"
    and e: "find_free_entry s pe 0 = Inr e"
  shows "in_data e" "in_data (e + 33)" "fs s' = fs s" "is_inode_ptr parent"
    "is_inode_ptr (inode_for_index s (first_clear_bit (inode_bitmap s)))"
    "i_type (inode_table s (inode_slot parent)) = inode_type_directory"
    "inode_table s' = inode_table (after_alloc s ty)"
    "data_bytes s' =
       (let d = data_block_for_index s (first_clear_bit (data_bitmap s));
            bytes = write_bytes (data_bytes s) e (entry_bytes (first_clear_bit (inode_bitmap s)) name)
        in if ty = inode_type_directory
           then write_bytes (write_bytes bytes d (entry_bytes 0 ''.'')) (d + 36) (entry_bytes 0 ''..'')
           else bytes)"
proof -
  from c obtain pe' e' where
    1: "is_inode_ptr parent" "i_type (inode_table s (inode_slot parent)) = inode_type_directory"
      "is_inode_ptr (inode_for_index s (first_clear_bit (inode_bitmap s)))"
    and pe': "data_block_pointers (inode_table (after_alloc s ty) (inode_slot parent)) 0 = Some pe'"
    and e': "find_free_entry s pe' 0 = Inr e'" "in_data e'" "in_data (e' + 33)"
    and s': "s' = create_inode_state s e' name ty"
    using par new unfolding create_inode_Inr_iff [OF par new] by auto
  have tab: "inode_table s' = inode_table (after_alloc s ty)"
    by (simp add: s' create_inode_state_fields)
  with pe pe' have "pe' = pe" by simp
  with e e' have "e' = e" by simp
  with 1 e' s' tab show "in_data e" "in_data (e + 33)" "fs s' = fs s" "is_inode_ptr parent"
    "is_inode_ptr (inode_for_index s (first_clear_bit (inode_bitmap s)))"
    "i_type (inode_table s (inode_slot parent)) = inode_type_directory"
    "inode_table s' = inode_table (after_alloc s ty)"
    "data_bytes s' =
       (let d = data_block_for_index s (first_clear_bit (data_bitmap s));
            bytes = write_bytes (data_bytes s) e (entry_bytes (first_clear_bit (inode_bitmap s)) name)
        in if ty = inode_type_directory
           then write_bytes (write_bytes bytes d (entry_bytes 0 ''.'')) (d + 36) (entry_bytes 0 ''..'')
           else bytes)"
    using new by (simp_all add: create_inode_state_fields)
qed

lemma stored_name_read:
  assumes bytes: "\<forall>i < 34. data_bytes s' (e + int i) = entry_bytes inum name ! i"
    and nul: "CHR 0x00 \<notin> set name"
    and rng: "in_data e" "in_data (e + 33)"
    and zero: "MAX_DIRECTORY_NAME_LENGTH \<le> length name \<longrightarrow>
        in_data (e + NAME_OFFSET + int MAX_DIRECTORY_NAME_LENGTH) \<and>
        data_bytes s' (e + NAME_OFFSET + int MAX_DIRECTORY_NAME_LENGTH) = CHR 0x00"
  shows "read_str s' (e + NAME_OFFSET) = Inr (take MAX_DIRECTORY_NAME_LENGTH name)"
    and "strcmp_eq s' (e + NAME_OFFSET) (take MAX_DIRECTORY_NAME_LENGTH name) = Inr True"
proof -
  let ?nm = "take MAX_DIRECTORY_NAME_LENGTH name"
  have len: "length ?nm \<le> 30" by (simp add: MAX_DIRECTORY_NAME_LENGTH_def)
  have 1: "\<forall>i < length ?nm. data_bytes s' (e + NAME_OFFSET + int i) = ?nm ! i"
  proof (intro allI impI)
    fix i assume i: "i < length ?nm"
    with len have "data_bytes s' (e + int (4 + i)) = entry_bytes inum name ! (4 + i)"
      by (intro bytes [rule_format]) (simp add: MAX_DIRECTORY_NAME_LENGTH_def)
    with i show "data_bytes s' (e + NAME_OFFSET + int i) = ?nm ! i"
      by (simp add: entry_bytes_nth NAME_OFFSET_def MAX_DIRECTORY_NAME_LENGTH_def add.assoc)
  qed
  have 2: "data_bytes s' (e + NAME_OFFSET + int (length ?nm)) = CHR 0x00
           \<and> in_data (e + NAME_OFFSET + int (length ?nm))"
  proof (cases "MAX_DIRECTORY_NAME_LENGTH \<le> length name")
    case True
    with zero show ?thesis by simp
  next
    case False
    then have l: "length name < 30" "length ?nm = length name"
      by (simp_all add: MAX_DIRECTORY_NAME_LENGTH_def)
    then have "data_bytes s' (e + int (4 + length name)) = entry_bytes inum name ! (4 + length name)"
      by (intro bytes [rule_format]) simp
    moreover have "in_data (e + 4 + int (length name))"
      using rng l by (simp add: in_data_def)
    ultimately show ?thesis
      using l by (simp add: entry_bytes_nth NAME_OFFSET_def add.assoc)
  qed
  have 3: "in_data (e + NAME_OFFSET)"
    using rng by (simp add: in_data_def NAME_OFFSET_def)
  have 4: "CHR 0x00 \<notin> set ?nm"
    using nul by (auto dest: in_set_takeD)
  show "read_str s' (e + NAME_OFFSET) = Inr ?nm"
    using 1 2 3 4 by (intro read_str_eq) simp_all
  show "strcmp_eq s' (e + NAME_OFFSET) ?nm = Inr True"
    using 1 2 3 by (intro strcmp_eq_True) simp_all
qed


section \<open>Lookup after creation\<close>

lemma create_f: "create_inode root_disk 12288 ''f'' inode_type_file = Inr disk_f"
  by (simp add: create_inode_Inr_iff find_free_entry.simps mem_eval root_bits after_alloc_def
      Let_def disk_f_def root_disk_fields split del: if_split)

lemma free_root: "find_free_entry root_disk 32768 0 = Inr 32876"
  by (simp add: find_free_entry.simps mem_eval root_disk_fields split del: if_split)

lemma absent_f: "directory_inode root_disk 12288 ''f'' = Inr None"
  by (simp add: directory_inode_def directory_scan.simps mem_eval root_disk_fields
      split del: if_split)

definition disk_ff :: disk_state where
  "disk_ff = create_inode_state disk_f 32984 ''f'' inode_type_file"

lemma disk_ff_fields:
  "fs disk_ff = fs root_disk"
  "inode_bitmap_words disk_ff = (\<lambda>_. 0)(0 := 7)"
  "data_bitmap_words disk_ff = (\<lambda>_. 0)(0 := 7)"
  "inode_table disk_ff = (inode_table disk_f)
     (2 := \<lparr>i_type = 0, i_size = 0, data_block_pointers = (\<lambda>_. None)(0 := Some 40960)\<rparr>)"
  "data_bytes disk_ff = write_bytes (data_bytes disk_f) 32984 (entry_bytes 2 ''f'')"
  "inums_allocated disk_ff = [2, 1, 0]"
  by (simp_all add: disk_ff_def create_inode_state_fields disk_a_bits after_alloc_def Let_def
    inode_bitmap_def data_bitmap_def inode_for_index_def data_block_for_index_def wrap_int_def inode_slot_def
    layout_defs zero_inode_def root_disk_fields disk_f_fields disk_f_def root_bits)

lemma step_ff: "create_file disk_f ''/f'' = Inr disk_ff"
  by (simp add: create_file_def create_path_def create_inode_Inr_iff bind_err_Inr_iff
      find_free_entry.simps mem_eval disk_a_bits after_alloc_def Let_def disk_ff_def
      root_disk_fields disk_f_fields split del: if_split)

text \<open>
  An entry with the empty name, as \<^verbatim>\<open>create_file("/")\<close> writes it, still counts as free,
  and no lookup reaches it: \<open>disk_e\<close> is the disk after that call on the fresh disk.
\<close>

definition disk_e :: disk_state where
  "disk_e = create_inode_state root_disk 32876 [] inode_type_file"

lemma disk_e_fields:
  "fs disk_e = fs root_disk"
  "inode_table disk_e 0 = inode_table root_disk 0"
  "data_bytes disk_e = write_bytes (data_bytes root_disk) 32876 (entry_bytes 1 [])"
  by (simp_all add: disk_e_def create_inode_state_fields root_bits after_alloc_def Let_def
      inode_bitmap_def data_bitmap_def inode_for_index_def data_block_for_index_def wrap_int_def inode_slot_def
      layout_defs zero_inode_def root_disk_fields)

lemma empty_name_not_found:
  "create_file root_disk ''/'' = Inr disk_e"
  "load_inum disk_e 32876 = Inr 1"
  "read_str disk_e (32876 + NAME_OFFSET) = Inr []"
  "directory_inode disk_e 12288 [] = Inr None"
proof -
  show "create_file root_disk ''/'' = Inr disk_e"
    by (simp add: create_file_def create_path_def create_inode_Inr_iff bind_err_Inr_iff
        find_free_entry.simps mem_eval root_bits after_alloc_def Let_def disk_e_def
        root_disk_fields split del: if_split)
  show "load_inum disk_e 32876 = Inr 1"
    by (simp add: mem_eval disk_e_fields)
  show "read_str disk_e (32876 + NAME_OFFSET) = Inr []"
    by (rule read_str_nil) (simp_all add: mem_eval disk_e_fields)
  show "directory_inode disk_e 12288 [] = Inr None"
    by (simp add: directory_inode_def directory_scan.simps mem_eval disk_e_fields root_disk_fields
        split del: if_split)
qed

text \<open>
  Claim C9, for a name that the directory does not hold yet. \<^verbatim>\<open>create_inode\<close> appends at
  the first entry without a name that \<^verbatim>\<open>entry = &entry[++index]\<close> reaches from the start
  of the parent's block, and \<^verbatim>\<open>directory_inode\<close> steps through the same entries in the
  same way. When the call returns for a non-empty name, and \<^verbatim>\<open>directory_inode\<close> did not
  find the name as it is stored (its first 30 characters) in the parent before, a lookup of
  the stored name returns the inode that the call allocated. The parent is an inode of the
  inode table. The entries from the start of the parent's block up to the new one are
  taken to lie apart from what else the call writes: from the new inode, when its index
  is 80 or more and it is written in the data region, and from the block of a new
  directory; and a name of 30 characters or more is taken to be followed by a zero byte.
\<close>

theorem lookup_after_create:
  assumes c: "create_inode s parent name inode_type = Inr s'"
    and par: "is_inode_ptr parent"
    and name: "name \<noteq> []" "CHR 0x00 \<notin> set name"
    and absent: "directory_inode s parent (take MAX_DIRECTORY_NAME_LENGTH name) = Inr None"
    and other: "parent \<noteq> inode_for_index s (first_clear_bit (inode_bitmap s))"
    and pe: "data_block_pointers (inode_table s' (inode_slot parent)) 0 = Some pe"
    and e: "find_free_entry s pe 0 = Inr e"
    and away: "is_inode_ptr (inode_for_index s (first_clear_bit (inode_bitmap s))) \<or>
        inode_for_index s (first_clear_bit (inode_bitmap s)) + 16 \<le> pe \<or>
        e + SIZEOF_DIRENTRY \<le> inode_for_index s (first_clear_bit (inode_bitmap s))"
    and apart: "inode_type = inode_type_directory \<longrightarrow>
        data_block_for_index s (first_clear_bit (data_bitmap s)) + 2 * SIZEOF_DIRENTRY \<le> pe \<or>
        e + SIZEOF_DIRENTRY \<le> data_block_for_index s (first_clear_bit (data_bitmap s))"
    and zero: "MAX_DIRECTORY_NAME_LENGTH \<le> length name \<longrightarrow>
        in_data (e + NAME_OFFSET + int MAX_DIRECTORY_NAME_LENGTH) \<and>
        data_bytes s (e + NAME_OFFSET + int MAX_DIRECTORY_NAME_LENGTH) = CHR 0x00"
  shows "directory_inode s' parent (take MAX_DIRECTORY_NAME_LENGTH name)
           = Inr (Some (inode_for_index s' (first_clear_bit (inode_bitmap s))))"
proof -
  define inum where "inum = first_clear_bit (inode_bitmap s)"
  define nm where "nm = take MAX_DIRECTORY_NAME_LENGTH name"
  define p where "p = inode_for_index s inum"
  define base where "base = data_bytes (after_alloc s inode_type)"
  from c obtain par0 par' pe' e' where
    ld: "load_inode s parent = Inr par0" "i_type par0 = inode_type_directory"
    and wr: "inode_writable p"
    and la: "load_inode (after_alloc s inode_type) parent = Inr par'"
      "data_block_pointers par' 0 = Some pe'"
    and fe: "find_free_entry (after_alloc s inode_type) pe' 0 = Inr e'" "in_data e'"
      "in_data (e' + 33)"
    and s': "s' = create_inode_state s e' name inode_type"
    unfolding create_inode_returns_iff p_def inum_def by blast
  have tab: "inode_table s' = inode_table (after_alloc s inode_type)"
    by (simp add: s' create_inode_state_fields)
  have keep: "inode_table (after_alloc s inode_type) (inode_slot parent)
                = inode_table s (inode_slot parent)"
  proof (cases "is_inode_ptr p")
    case True
    with other par have "inode_slot parent \<noteq> inode_slot p"
      using inode_slot_inj unfolding p_def inum_def by blast
    with True show ?thesis
      by (simp add: p_def inum_def)
  next
    case False
    then show ?thesis
      by (simp add: after_alloc_def Let_def p_def inum_def)
  qed
  from la(1) par have "par' = inode_table (after_alloc s inode_type) (inode_slot parent)"
    by simp
  with la(2) pe tab have "pe' = pe" by simp
  from pe tab keep have pe_s: "data_block_pointers (inode_table s (inode_slot parent)) 0 = Some pe"
    by simp
  from ld par have dir: "i_type (inode_table s (inode_slot parent)) = inode_type_directory"
    by simp
  from e have pe_le: "pe \<le> e" "in_data (e + NAME_OFFSET)"
    by (auto dest: find_free_entry_in_data)
  have base_eq: "base x = data_bytes s x" if "pe \<le> x" "x < e + SIZEOF_DIRENTRY" for x
    using that away
    by (auto simp add: base_def after_alloc_def Let_def write_bytes_apply p_def inum_def)
  have "find_free_entry (after_alloc s inode_type) pe 0 = Inr e"
    by (rule find_free_entry_same [OF e]) (simp add: base_eq [unfolded base_def])
  with fe(1) \<open>pe' = pe\<close> have "e' = e" by simp
  with fe have rng: "in_data e" "in_data (e + 33)" by simp_all
  have bytes: "data_bytes s' =
       (let d = data_block_for_index s (first_clear_bit (data_bitmap s));
            bytes = write_bytes base e (entry_bytes inum name)
        in if inode_type = inode_type_directory
           then write_bytes (write_bytes bytes d (entry_bytes 0 ''.'')) (d + 36) (entry_bytes 0 ''..'')
           else bytes)"
    by (simp add: s' \<open>e' = e\<close> create_inode_state_fields base_def inum_def)
  from absent have scan: "directory_scan s nm pe 0 = Inr None"
    by (simp add: directory_inode_def par dir pe_s nm_def)
  have stored: "data_bytes s' (e + int i) = entry_bytes inum name ! i" if "i < 34" for i
    using that apart pe_le
    by (auto simp add: bytes Let_def write_bytes_apply SIZEOF_DIRENTRY_def)
  have before: "data_bytes s' x = data_bytes s x" if "pe \<le> x" "x < e" for x
    using that apart base_eq [of x]
    by (auto simp add: bytes Let_def write_bytes_apply SIZEOF_DIRENTRY_def)
  have after: "MAX_DIRECTORY_NAME_LENGTH \<le> length name \<longrightarrow>
        in_data (e + NAME_OFFSET + int MAX_DIRECTORY_NAME_LENGTH) \<and>
        data_bytes s' (e + NAME_OFFSET + int MAX_DIRECTORY_NAME_LENGTH) = CHR 0x00"
  proof -
    have "base (34 + e) = data_bytes s (34 + e)"
      using pe_le by (intro base_eq) (simp_all add: SIZEOF_DIRENTRY_def)
    with apart zero pe_le show ?thesis
      by (auto simp add: bytes Let_def write_bytes_apply layout_defs)
  qed
  have cmp: "strcmp_eq s' (e + NAME_OFFSET) nm = Inr True"
    unfolding nm_def using stored name(2) rng after
    by (intro stored_name_read(2) [where inum = inum]) simp_all
  have first: "data_bytes s' (e + NAME_OFFSET) \<noteq> CHR 0x00"
  proof -
    from name have "name ! 0 \<noteq> CHR 0x00" by (cases name) auto
    with stored [of 4] name(1) show ?thesis
      by (simp add: entry_bytes_nth NAME_OFFSET_def)
  qed
  have num: "load_inum s' e = Inr inum"
  proof (rule load_inum_entry)
    show "\<forall>i<4. data_bytes s' (e + int i) = int_bytes inum ! i"
      using stored by (simp add: entry_bytes_nth)
    show "in_data e" "in_data (e + 3)"
      using rng by (simp_all add: in_data_def)
    show "- 1 \<le> inum" "inum < 65536"
      using first_clear_bit_range [of "inode_bitmap s"] by (simp_all add: inum_def)
  qed
  have found: "directory_scan s' nm e k = Inr (Some (inode_for_index s' inum))" for k
    using pe_le(2) first cmp num
    by (subst directory_scan.simps) simp
  have "directory_scan s' nm pe 0 = Inr (Some (inode_for_index s' inum))"
    using before found
    by (intro directory_scan_after_append [OF e scan])
       (simp_all add: nm_def MAX_DIRECTORY_NAME_LENGTH_def)
  then show ?thesis
    using par dir
    by (simp add: directory_inode_def tab keep pe_s nm_def inum_def)
qed

theorem lookup_after_create_witness:
  "create_inode root_disk 12288 ''f'' inode_type_file = Inr disk_f \<and>
   directory_inode root_disk 12288 ''f'' = Inr None \<and>
   inums_allocated disk_f = [1, 0] \<and>
   directory_inode disk_f 12288 ''f'' = Inr (Some (inode_for_index disk_f 1))"
proof -
  have fcb: "first_clear_bit (inode_bitmap root_disk) = 1"
    by (simp add: inode_bitmap_def root_disk_fields root_bits)
  have pe: "data_block_pointers (inode_table disk_f (inode_slot 12288)) 0 = Some 32768"
    by (simp add: disk_f_fields root_disk_fields inode_slot_def layout_defs)
  have absent: "directory_inode root_disk 12288 (take MAX_DIRECTORY_NAME_LENGTH ''f'') = Inr None"
    by (simp add: absent_f MAX_DIRECTORY_NAME_LENGTH_def)
  have other: "12288 \<noteq> inode_for_index root_disk (first_clear_bit (inode_bitmap root_disk))"
    by (simp add: fcb inode_for_index_def wrap_int_def root_disk_fields layout_defs)
  have "directory_inode disk_f 12288 (take MAX_DIRECTORY_NAME_LENGTH ''f'')
          = Inr (Some (inode_for_index disk_f (first_clear_bit (inode_bitmap root_disk))))"
    by (rule lookup_after_create [OF create_f _ _ _ absent other pe free_root])
       (simp_all add: inode_type_file_def inode_type_directory_def MAX_DIRECTORY_NAME_LENGTH_def
          fcb inode_for_index_def wrap_int_def root_disk_fields layout_defs)
  moreover have "inums_allocated disk_f = [1, 0]"
    by (simp add: disk_f_def create_inode_state_fields fcb root_disk_fields)
  ultimately show ?thesis
    using create_f absent_f by (simp add: fcb MAX_DIRECTORY_NAME_LENGTH_def)
qed

text \<open>
  Claim C9 as stated fails for a name that is already in the directory. After
  \<^verbatim>\<open>fs_create_disk\<close> and two calls \<^verbatim>\<open>create_file("/f")\<close> the root holds two entries
  named \<open>f\<close>, for the inodes 1 and 2; the lookup of \<open>f\<close> stops at the first and returns
  inode 1, not the inode 2 that the second call allocated.
\<close>

theorem create_file_twice_counterexample:
  "fs_create_disk = Inr root_disk \<and>
   create_file root_disk ''/f'' = Inr disk_f \<and>
   create_file disk_f ''/f'' = Inr disk_ff \<and>
   inums_allocated disk_ff = [2, 1, 0] \<and>
   load_inum disk_ff 32984 = Inr 2 \<and> read_str disk_ff (32984 + NAME_OFFSET) = Inr ''f'' \<and>
   directory_inode disk_ff (root_inode_ptr disk_ff) ''f'' = Inr (Some (inode_for_index disk_ff 1)) \<and>
   inode_for_index disk_ff 1 \<noteq> inode_for_index disk_ff 2"
proof -
  have "load_inum disk_ff 32984 = Inr 2"
    by (simp add: mem_eval disk_ff_fields)
  moreover have "read_str disk_ff (32984 + NAME_OFFSET) = Inr ''f''"
    by (rule read_str_one) (simp_all add: mem_eval disk_ff_fields)
  moreover have "directory_inode disk_ff (root_inode_ptr disk_ff) ''f'' = Inr (Some (inode_for_index disk_ff 1))"
    by (simp add: directory_inode_def directory_scan.simps mem_eval disk_ff_fields disk_f_fields
        root_disk_fields split del: if_split)
  moreover have "inode_for_index disk_ff 1 \<noteq> inode_for_index disk_ff 2"
    by (simp add: inode_for_index_def wrap_int_def layout_defs)
  ultimately show ?thesis
    using fs_create_disk_returns step_f step_ff disk_ff_fields(6) by simp
qed


section \<open>Names longer than the name field\<close>

text \<open>
  \<^verbatim>\<open>strncpy(entry->name, name, MAX_DIRECTORY_NAME_LENGTH)\<close> writes the first 30 characters
  of a longer name and no terminator: byte 30 of the 31-byte field keeps what it held.
  When that byte is zero, as \<^verbatim>\<open>calloc\<close> left it, the stored string is the name cut to
  30 characters (shown for a parent and a new inode in the inode table).
\<close>

lemma create_inode_truncates_name:
  assumes c: "create_inode s parent name inode_type = Inr s'"
    and par: "is_inode_ptr parent"
    and new: "is_inode_ptr (inode_for_index s (first_clear_bit (inode_bitmap s)))"
    and long: "MAX_DIRECTORY_NAME_LENGTH < length name" and nul: "CHR 0x00 \<notin> set name"
    and pe: "data_block_pointers (inode_table s' (inode_slot parent)) 0 = Some pe"
    and e: "find_free_entry s pe 0 = Inr e"
    and apart: "inode_type = inode_type_directory \<longrightarrow>
        data_block_for_index s (first_clear_bit (data_bitmap s)) + 2 * SIZEOF_DIRENTRY \<le> e \<or>
        e + SIZEOF_DIRENTRY \<le> data_block_for_index s (first_clear_bit (data_bitmap s))"
    and zero: "in_data (e + NAME_OFFSET + int MAX_DIRECTORY_NAME_LENGTH)"
      "data_bytes s (e + NAME_OFFSET + int MAX_DIRECTORY_NAME_LENGTH) = CHR 0x00"
  shows "(\<forall>i < MAX_DIRECTORY_NAME_LENGTH. data_bytes s' (e + NAME_OFFSET + int i) = name ! i) \<and>
         read_str s' (e + NAME_OFFSET) = Inr (take MAX_DIRECTORY_NAME_LENGTH name)"
proof -
  define inum where "inum = first_clear_bit (inode_bitmap s)"
  note w = create_inode_written [OF c par new pe e]
  have stored: "data_bytes s' (e + int i) = entry_bytes inum name ! i" if "i < 34" for i
    using that apart
    by (auto simp add: w(8) Let_def write_bytes_apply inum_def SIZEOF_DIRENTRY_def)
  have after: "data_bytes s' (e + NAME_OFFSET + int MAX_DIRECTORY_NAME_LENGTH) = CHR 0x00"
    using apart zero(2)
    by (auto simp add: w(8) Let_def write_bytes_apply layout_defs)
  have 1: "data_bytes s' (e + NAME_OFFSET + int i) = name ! i" if "i < MAX_DIRECTORY_NAME_LENGTH" for i
    using that long stored [of "4 + i"]
    by (simp add: entry_bytes_nth layout_defs add.assoc)
  have "read_str s' (e + NAME_OFFSET) = Inr (take MAX_DIRECTORY_NAME_LENGTH name)"
    using stored nul w(1,2) zero(1) after
    by (intro stored_name_read(1) [where inum = inum]) simp_all
  with 1 show ?thesis by simp
qed

text \<open>
  The disks of a run in which byte 30 of the name field is not zero. After
  \<^verbatim>\<open>create_dir("/a")\<close> the root has three entries; \<open>disk_q\<close> is the disk after twelve
  more files in the root, \<open>disk_r\<close> after a thirteenth with a name of 26 letters. Its
  entry is the sixteenth that the loops visit, entry 120 of the root's block, which
  lies 224 bytes into the next block, the block of \<open>/a\<close>. \<open>disk_rx\<close> and \<open>disk_rl\<close>
  are the disks after \<^verbatim>\<open>create_file("/a/x")\<close> and after the creation of a file with a
  name of 34 characters in \<open>/a\<close>.
\<close>

lemma run_append: "run s (xs @ ys) = bind_err (run s xs) (\<lambda>t. run t ys)"
  by (induction xs arbitrary: s) (simp_all add: bind_err_assoc)

lemma slot_addr_le: "i \<le> j \<Longrightarrow> slot_addr b i \<le> slot_addr b j"
  using tri_le [of i j] by (simp add: slot_addr_def SIZEOF_DIRENTRY_def)

lemma add_root_file_fields:
  "fs (add_root_file s m n x) = fs s"
  "k \<noteq> int n \<Longrightarrow> inode_table (add_root_file s m n x) k = inode_table s k"
  "data_bytes (add_root_file s m n x) = write_bytes (data_bytes s) (slot_addr 32768 m) (entry_bytes (int n) x)"
  "inums_allocated (add_root_file s m n x) = int n # inums_allocated s"
  by (simp_all add: add_root_file_def)

lemma root_files_fields:
  "fs (root_files s m n xs) = fs s"
  "k < int n \<Longrightarrow> inode_table (root_files s m n xs) k = inode_table s k"
  "(\<forall>j. m \<le> j \<and> j < m + length xs \<longrightarrow> y < slot_addr 32768 j \<or> slot_addr 32768 j + 34 \<le> y)
     \<Longrightarrow> data_bytes (root_files s m n xs) y = data_bytes s y"
proof (induction xs arbitrary: s m n)
  case Nil
  {
    case 1 show ?case by simp
  next
    case 2 show ?case by simp
  next
    case 3 show ?case by simp
  }
next
  case (Cons x xs)
  {
    case 1
    show ?case by (simp add: Cons.IH(1) add_root_file_fields)
  next
    case 2
    then show ?case by (simp add: Cons.IH(2) add_root_file_fields)
  next
    case 3
    then have "data_bytes (root_files (add_root_file s m n x) (Suc m) (Suc n) xs) y
                 = data_bytes (add_root_file s m n x) y"
      by (intro Cons.IH(3)) auto
    moreover from 3 have "y < slot_addr 32768 m \<or> slot_addr 32768 m + 34 \<le> y"
      by auto
    ultimately show ?case
      by (auto simp add: add_root_file_fields write_bytes_apply)
  }
qed

lemma root_ok_disk_a: "root_ok disk_a 3 2"
proof -
  have "data_bytes disk_a (slot_addr 32768 j + NAME_OFFSET) \<noteq> CHR 0x00 \<longleftrightarrow> j < 3" for j
  proof -
    consider "j = 0" | "j = 1" | "j = 2" | "2 < j" by linarith
    then show ?thesis
    proof cases
      case 1
      then show ?thesis by (simp add: slot_addr_def mem_eval disk_a_fields root_disk_fields)
    next
      case 2
      then show ?thesis by (simp add: slot_addr_def tri_def mem_eval disk_a_fields root_disk_fields)
    next
      case 3
      then show ?thesis by (simp add: slot_addr_def tri_def mem_eval disk_a_fields root_disk_fields)
    next
      case 4
      from tri_mono [OF 4] 4 have t: "6 \<le> tri j" by (simp add: tri_def)
      consider "tri j \<le> 113" | "tri j = 114" | "tri j = 115" | "116 \<le> tri j" by linarith
      then have "data_bytes disk_a (32772 + 36 * tri j) = CHR 0x00"
      proof cases
        case 1
        with t show ?thesis
          by (simp add: disk_a_fields root_disk_fields write_bytes_apply)
      next
        case 2
        then show ?thesis
          by (simp add: disk_a_fields root_disk_fields mem_eval)
      next
        case 3
        then show ?thesis
          by (simp add: disk_a_fields root_disk_fields mem_eval)
      next
        case 4
        then show ?thesis
          by (simp add: disk_a_fields root_disk_fields write_bytes_apply)
      qed
      with 4 show ?thesis
        by (simp add: slot_addr_def layout_defs ac_simps)
    qed
  qed
  moreover have "(3 :: word_t) = bits_below 2"
    by (simp add: bits_below_def mask_eq_exp_minus_1)
  ultimately show ?thesis
    by (simp add: root_ok_def disk_a_fields)
qed

definition disk_q :: disk_state where
  "disk_q = root_files disk_a 3 2 (replicate 12 ''f'')"

definition disk_r :: disk_state where
  "disk_r = add_root_file disk_q 15 14 ''abcdefghijklmnopqrstuvwxyz''"

definition disk_rx :: disk_state where
  "disk_rx = create_inode_state disk_r 36972 ''x'' inode_type_file"

definition disk_rl :: disk_state where
  "disk_rl = create_inode_state disk_rx 37080 ''0123456789012345678901234567890123'' inode_type_file"

lemma run_disk_q:
  "run disk_a (replicate 12 (Create_file ''/f'')) = Inr disk_q" "root_ok disk_q 15 14"
proof -
  have "map (\<lambda>x. Create_file (CHR ''/'' # x)) (replicate 12 ''f'') = replicate 12 (Create_file ''/f'')"
    by simp
  with run_root_files [OF root_ok_disk_a, of "replicate 12 ''f''"]
  show "run disk_a (replicate 12 (Create_file ''/f'')) = Inr disk_q" "root_ok disk_q 15 14"
    by (simp_all add: disk_q_def)
qed

lemma step_r:
  "create_file disk_q ''/abcdefghijklmnopqrstuvwxyz'' = Inr disk_r" "root_ok disk_r 16 15"
  using create_file_in_root [OF run_disk_q(2), of "''abcdefghijklmnopqrstuvwxyz''"]
  by (simp_all add: disk_r_def)

lemma disk_q_bytes:
  assumes "y < 32984 \<or> 36582 \<le> y"
  shows "data_bytes disk_q y = data_bytes disk_a y"
  unfolding disk_q_def
proof (rule root_files_fields(3), intro allI impI)
  fix j :: nat assume j: "3 \<le> j \<and> j < 3 + length (replicate 12 ''f'')"
  then have "slot_addr 32768 3 \<le> slot_addr 32768 j" "slot_addr 32768 j \<le> slot_addr 32768 14"
    by (simp_all add: slot_addr_le)
  moreover have "slot_addr 32768 3 = 32984" "slot_addr 32768 14 = 36548"
    by (simp_all add: slot_addr_def tri_def SIZEOF_DIRENTRY_def)
  ultimately show "y < slot_addr 32768 j \<or> slot_addr 32768 j + 34 \<le> y"
    using assms by auto
qed

lemma disk_r_fields:
  "fs disk_r = fs root_disk"
  "inode_table disk_r 0 = inode_table root_disk 0"
  "inode_table disk_r 1 = inode_table disk_a 1"
  "inode_bitmap_words disk_r = (\<lambda>_. 0)(0 := bits_below 15)"
  "data_bitmap_words disk_r = (\<lambda>_. 0)(0 := bits_below 15)"
  "data_bytes disk_r = write_bytes (data_bytes disk_q) 37088 (entry_bytes 14 ''abcdefghijklmnopqrstuvwxyz'')"
proof -
  show "fs disk_r = fs root_disk" "inode_table disk_r 0 = inode_table root_disk 0"
    "inode_bitmap_words disk_r = (\<lambda>_. 0)(0 := bits_below 15)"
    "data_bitmap_words disk_r = (\<lambda>_. 0)(0 := bits_below 15)"
    using step_r(2) by (simp_all add: root_ok_def)
  show "inode_table disk_r 1 = inode_table disk_a 1"
    by (simp add: disk_r_def disk_q_def add_root_file_fields root_files_fields)
  show "data_bytes disk_r = write_bytes (data_bytes disk_q) 37088 (entry_bytes 14 ''abcdefghijklmnopqrstuvwxyz'')"
    by (simp add: disk_r_def add_root_file_fields slot_addr_def tri_def SIZEOF_DIRENTRY_def)
qed

lemma bits_15: "first_clear_bit ((\<lambda>_. 0)(0 := bits_below 15)) = 15"
  "set_bit_fs ((\<lambda>_. 0)(0 := bits_below 15)) 15 = (\<lambda>_. 0)(0 := bits_below 16)"
  "first_clear_bit ((\<lambda>_. 0)(0 := bits_below 16)) = 16"
  using first_clear_bits_below [of 15] set_bit_bits_below [of 15] first_clear_bits_below [of 16]
  by simp_all

lemma step_rx: "create_file disk_r ''/a/x'' = Inr disk_rx"
  by (simp add: create_file_def create_path_def create_inode_Inr_iff bind_err_Inr_iff
      directory_inode_def directory_scan.simps
      find_free_entry.simps mem_eval bits_15 after_alloc_def Let_def disk_rx_def
      root_disk_fields disk_a_fields disk_r_fields disk_q_bytes split del: if_split)


lemma disk_rx_fields:
  "fs disk_rx = fs root_disk"
  "inode_table disk_rx 0 = inode_table root_disk 0"
  "inode_table disk_rx 1 = inode_table disk_a 1"
  "inode_bitmap_words disk_rx = (\<lambda>_. 0)(0 := bits_below 16)"
  "data_bitmap_words disk_rx = (\<lambda>_. 0)(0 := bits_below 16)"
  "data_bytes disk_rx = write_bytes (data_bytes disk_r) 36972 (entry_bytes 15 ''x'')"
  by (simp_all add: disk_rx_def create_inode_state_fields bits_15 after_alloc_def Let_def
    inode_bitmap_def data_bitmap_def inode_for_index_def data_block_for_index_def wrap_int_def inode_slot_def
    layout_defs root_disk_fields disk_r_fields inode_type_file_def inode_type_directory_def)

lemma step_rl: "create_file disk_rx ''/a/0123456789012345678901234567890123'' = Inr disk_rl"
  by (simp add: create_file_def create_path_def create_inode_Inr_iff bind_err_Inr_iff
      directory_inode_def directory_scan.simps
      find_free_entry.simps mem_eval bits_15 after_alloc_def Let_def disk_rl_def
      root_disk_fields disk_a_fields disk_r_fields disk_rx_fields disk_q_bytes split del: if_split)

lemma free_rx: "find_free_entry disk_rx 36864 0 = Inr 37080"
  by (simp add: find_free_entry.simps mem_eval
      root_disk_fields disk_a_fields disk_r_fields disk_rx_fields disk_q_bytes split del: if_split)

lemma disk_rl_fields:
  "fs disk_rl = fs root_disk"
  "inode_table disk_rl 1 = inode_table disk_a 1"
  "data_bytes disk_rl = write_bytes (data_bytes disk_rx) 37080
     (entry_bytes 16 ''0123456789012345678901234567890123'')"
  by (simp_all add: disk_rl_def create_inode_state_fields bits_15 after_alloc_def Let_def
    inode_bitmap_def data_bitmap_def inode_for_index_def data_block_for_index_def wrap_int_def inode_slot_def
    layout_defs root_disk_fields disk_rx_fields inode_type_file_def inode_type_directory_def)

lemma read_rl: "read_str disk_rl 37084 = Inr ''012345678901234567890123456789wxyz''"
  by (simp add: read_str.simps mem_eval
      root_disk_fields disk_a_fields disk_r_fields disk_rx_fields disk_rl_fields disk_q_bytes
      split del: if_split)

lemma inum_rl: "load_inum disk_rl 37080 = Inr 16"
  by (simp add: mem_eval disk_rl_fields)

lemma lookup_rl: "directory_inode disk_rl 12544 ''012345678901234567890123456789'' = Inr None"
  by (simp add: directory_inode_def directory_scan.simps mem_eval
      root_disk_fields disk_a_fields disk_r_fields disk_rx_fields disk_rl_fields disk_q_bytes
      split del: if_split)


lemma run_ops_rx:
  "run root_disk (Create_dir ''/a'' # replicate 12 (Create_file ''/f'') @
     [Create_file ''/abcdefghijklmnopqrstuvwxyz'', Create_file ''/a/x'']) = Inr disk_rx"
  by (simp add: run_append step_a run_disk_q(1) step_r(1) step_rx)

text \<open>
  Claim C7 at such an entry. After \<^verbatim>\<open>fs_create_disk\<close>, \<^verbatim>\<open>create_dir("/a")\<close>, twelve
  calls \<^verbatim>\<open>create_file("/f")\<close>, \<^verbatim>\<open>create_file("/abcdefghijklmnopqrstuvwxyz")\<close> and
  \<^verbatim>\<open>create_file("/a/x")\<close>, the call
  \<^verbatim>\<open>create_file("/a/0123456789012345678901234567890123")\<close> returns with its entry at entry 6 of
  the block of \<open>/a\<close>. The 30 bytes of the name field that \<^verbatim>\<open>strncpy\<close> writes are followed
  by the letters \<open>wxyz\<close> of the root's entry, so the stored name reads back with 34
  characters, and the lookup of the first 30 characters of the name in \<open>/a\<close> finds nothing.
\<close>

theorem long_name_not_terminated:
  "fs_create_disk = Inr root_disk \<and>
   run root_disk (Create_dir ''/a'' # replicate 12 (Create_file ''/f'') @
     [Create_file ''/abcdefghijklmnopqrstuvwxyz'', Create_file ''/a/x'']) = Inr disk_rx \<and>
   find_free_entry disk_rx 36864 0 = Inr 37080 \<and>
   create_file disk_rx ''/a/0123456789012345678901234567890123'' = Inr disk_rl \<and>
   load_inum disk_rl 37080 = Inr 16 \<and>
   read_str disk_rl (37080 + NAME_OFFSET) = Inr ''012345678901234567890123456789wxyz'' \<and>
   directory_inode disk_rl 12544 ''012345678901234567890123456789'' = Inr None"
  using fs_create_disk_returns run_ops_rx free_rx step_rl inum_rl read_rl lookup_rl
  by (simp add: NAME_OFFSET_def)


section \<open>The scan over the upper half of a word\<close>






section \<open>The call after the last block\<close>

text \<open>
  Claim C5, as the code has it. \<^verbatim>\<open>create_inode\<close> has no capacity check and there is no
  error for exhaustion. When every block index of the data region is taken and the call
  returns, it has taken the first clear index of the data bitmap, which is not below
  \<^verbatim>\<open>DATA_REGION_IN_BLOCKS\<close> (or is the sentinel \<open>-1\<close>), and has set its bit; the block
  address computed from that index lies outside the data region; the call created a file
  (for a directory \<^verbatim>\<open>.\<close> and \<^verbatim>\<open>..\<close> would be written at that address); the new inode, when
  it lies in the inode table, has the type and that address as its block; and the entry with
  the new inode's number and the name has been appended to the parent, at the first entry
  without a name that the loop reaches in the parent's block.
\<close>

theorem create_inode_at_exhaustion:
  assumes full: "\<forall>i. 0 \<le> i \<and> i < DATA_REGION_IN_BLOCKS \<longrightarrow> get_bit (data_bitmap s) i"
    and start: "data_region_start (fs s) = 8"
    and c: "create_inode s parent name inode_type = Inr s'"
  shows "let d = first_clear_bit (data_bitmap s);
             inum = first_clear_bit (inode_bitmap s);
             p = inode_for_index s inum;
             new = inode_table s' (inode_slot p)
         in (d = - 1 \<or> DATA_REGION_IN_BLOCKS \<le> d \<and> \<not> get_bit (data_bitmap s) d) \<and>
            data_bitmap s' = set_bit_fs (data_bitmap s) d \<and> get_bit (data_bitmap s') d \<and>
            blocks_allocated s' = d # blocks_allocated s \<and>
            \<not> in_data (data_block_for_index s d) \<and>
            inode_type \<noteq> inode_type_directory \<and>
            (is_inode_ptr p \<longrightarrow>
               i_type new = inode_type \<and>
               data_block_pointers new 0 = Some (data_block_for_index s d)) \<and>
            (\<exists>par pe e. load_inode (after_alloc s inode_type) parent = Inr par \<and>
               data_block_pointers par 0 = Some pe \<and>
               find_free_entry (after_alloc s inode_type) pe 0 = Inr e \<and>
               load_inum s' e = Inr inum \<and>
               (\<forall>i < 30. data_bytes s' (e + NAME_OFFSET + int i) = name_field name ! i))"
proof -
  define d where "d = first_clear_bit (data_bitmap s)"
  define inum where "inum = first_clear_bit (inode_bitmap s)"
  define p where "p = inode_for_index s inum"
  from c obtain par pe e where
    par: "load_inode (after_alloc s inode_type) parent = Inr par"
      "data_block_pointers par 0 = Some pe"
    and e: "find_free_entry (after_alloc s inode_type) pe 0 = Inr e" "in_data e" "in_data (e + 33)"
    and dir: "inode_type = inode_type_directory \<longrightarrow> in_data (data_block_for_index s d)"
    and s': "s' = create_inode_state s e name inode_type"
    unfolding create_inode_returns_iff d_def by auto
  have rng: "- 1 \<le> d" "d < 32768"
    using first_clear_from_result [of "data_bitmap s" 0]
    by (auto simp add: d_def first_clear_bit_def layout_defs)
  have 1: "d = - 1 \<or> DATA_REGION_IN_BLOCKS \<le> d \<and> \<not> get_bit (data_bitmap s) d"
  proof (cases "d = - 1")
    case False
    with first_clear_from_result [of "data_bitmap s" 0]
    have "0 \<le> d" "\<not> get_bit (data_bitmap s) d"
      by (auto simp add: d_def first_clear_bit_def)
    with full show ?thesis by force
  qed simp
  have addr: "data_block_for_index s d = (8 + d) * 4096"
    using rng by (simp add: data_block_for_index_def start wrap_int_id BLOCK_SIZE_IN_BYTES_def)
  have 2: "\<not> in_data (data_block_for_index s d)"
    using 1 by (auto simp add: addr in_data_def layout_defs)
  with dir have 3: "inode_type \<noteq> inode_type_directory" by auto
  have 4: "data_bitmap s' = set_bit_fs (data_bitmap s) d"
    "blocks_allocated s' = d # blocks_allocated s"
    by (simp_all add: s' create_inode_state_fields data_bitmap_def d_def)
  have 5: "i_type (inode_table s' (inode_slot p)) = inode_type"
    "data_block_pointers (inode_table s' (inode_slot p)) 0 = Some (data_block_for_index s d)"
    if "is_inode_ptr p"
    using that
    by (simp_all add: s' create_inode_state_fields after_alloc_def Let_def d_def p_def inum_def)
  have bytes: "data_bytes s' (e + int i) = entry_bytes inum name ! i" if "i < 34" for i
    using that 3 by (simp add: s' create_inode_state_fields Let_def write_bytes_apply inum_def)
  have 6: "load_inum s' e = Inr inum"
  proof (rule load_inum_entry)
    show "\<forall>i<4. data_bytes s' (e + int i) = int_bytes inum ! i"
      using bytes by (simp add: entry_bytes_def nth_append)
    show "in_data e" "in_data (e + 3)"
      using e by (simp_all add: in_data_def)
    show "- 1 \<le> inum" "inum < 65536"
      using first_clear_bit_range [of "inode_bitmap s"] by (simp_all add: inum_def)
  qed
  have 7: "data_bytes s' (e + NAME_OFFSET + int i) = name_field name ! i" if "i < 30" for i
    using that bytes [of "4 + i"]
    by (simp add: entry_bytes_def nth_append NAME_OFFSET_def add.assoc)
  from par e 6 7 have 8: "\<exists>par pe e. load_inode (after_alloc s inode_type) parent = Inr par \<and>
       data_block_pointers par 0 = Some pe \<and>
       find_free_entry (after_alloc s inode_type) pe 0 = Inr e \<and>
       load_inum s' e = Inr inum \<and>
       (\<forall>i < 30. data_bytes s' (e + NAME_OFFSET + int i) = name_field name ! i)"
    by blast
  show ?thesis
    unfolding Let_def d_def [symmetric] inum_def [symmetric] p_def [symmetric]
    using 1 2 3 4 5 8 by (simp add: get_bit_set_bit_same)
qed

theorem create_inode_at_exhaustion_witness:
  "create_inode disk_full 12288 ''x'' inode_type_file = Inr disk_over \<and>
   data_bitmap disk_over = set_bit_fs (data_bitmap disk_full) 64 \<and>
   get_bit (data_bitmap disk_over) 64 \<and> \<not> get_bit (data_bitmap disk_full) 64 \<and>
   blocks_allocated disk_over = 64 # blocks_allocated disk_full \<and>
   data_block_for_index disk_full 64 = 294912 \<and> \<not> in_data 294912 \<and>
   is_inode_ptr (inode_for_index disk_full 64) \<and>
   data_block_pointers (inode_table disk_over (inode_slot (inode_for_index disk_full 64))) 0
     = Some 294912"
proof -
  have full: "\<forall>i. 0 \<le> i \<and> i < DATA_REGION_IN_BLOCKS \<longrightarrow> get_bit (data_bitmap disk_full) i"
    by (simp add: data_bitmap_def disk_full_bitmaps get_bit_all_ones_word layout_defs)
  note c = create_over(1)
  have fs: "fs disk_full = fs root_disk"
    using run_disk_full(2) by (simp add: root_ok_def)
  then have start: "data_region_start (fs disk_full) = 8"
    by (simp add: root_disk_fields)
  have d: "first_clear_bit (data_bitmap disk_full) = 64"
    "first_clear_bit (inode_bitmap disk_full) = 64"
    by (simp_all add: data_bitmap_def inode_bitmap_def disk_full_bitmaps
        first_clear_bit_all_ones_word)
  have a: "data_block_for_index disk_full 64 = 294912" "inode_for_index disk_full 64 = 28672"
    by (simp_all add: data_block_for_index_def inode_for_index_def wrap_int_def fs
        root_disk_fields layout_defs)
  show ?thesis
    using create_inode_at_exhaustion [OF full start c] c d
    by (simp add: Let_def a in_data_def layout_defs get_bit_set_bit_same)
qed

text \<open>
  Claim C5 as stated fails after \<^verbatim>\<open>fs_create_disk\<close> and 31 calls
  \<^verbatim>\<open>create_file("/f")\<close>: word 0 of the data bitmap is then all ones, so that every
  index below 64 reads as allocated (setting index 31 sets the bits 31 to 63, see C10),
  and one more \<^verbatim>\<open>create_file\<close> returns with index 64 allocated and the disk changed.
\<close>

theorem create_file_after_exhaustion_counterexample:
  "fs_create_disk = Inr root_disk \<and>
   run root_disk (replicate 31 (Create_file ''/f'')) = Inr disk_full \<and>
   data_bitmap disk_full 0 = - 1 \<and>
   get_bit (data_bitmap disk_full) 0 \<and> get_bit (data_bitmap disk_full) 55 \<and>
   create_file disk_full ''/x'' = Inr disk_over \<and>
   disk_over \<noteq> disk_full \<and>
   blocks_allocated disk_over = 64 # blocks_allocated disk_full \<and>
   data_bitmap disk_over 1 = 1 \<and> data_bitmap disk_full 1 = 0"
proof -
  have 1: "blocks_allocated disk_over = 64 # blocks_allocated disk_full"
    "data_bitmap disk_over = set_bit_fs ((\<lambda>_. 0)(0 := - 1)) 64"
    by (simp_all add: disk_over_def create_inode_state_fields data_bitmap_def disk_full_bitmaps
        first_clear_bit_all_ones_word)
  then have 2: "disk_over \<noteq> disk_full" by auto
  have 3: "data_bitmap disk_over 1 = 1"
    unfolding 1 by (simp add: bit_eval)
  show ?thesis
    using run_disk_full(1) create_over(2) 1 2 3 fs_create_disk_returns
    by (simp add: data_bitmap_def disk_full_bitmaps get_bit_all_ones_word)
qed


end
